theory Spec2Isabelle
  imports Complex_Main
begin

section \<open>Common conventions\<close>

text \<open>
  The repository is a set of Python scripts (\<^verbatim>\<open>network_gen.py\<close>, \<^verbatim>\<open>analysis.py\<close>,
  \<^verbatim>\<open>clean_cluster_data.py\<close>) run one after the other, each reading what the one before
  saved. Each script is embedded as a function from the data it loads to the data it
  saves. Python floats are idealised as reals, Python ints are \<open>int\<close> or, for indices and
  lengths, \<open>nat\<close>. Every exception a script can raise is a value of \<open>error\<close>; a script that
  stops with a traceback returns \<open>Inl\<close>.

  Third-party library calls are not part of the repository. The great-circle distance of
  geopy, the triangulation of scipy, the layout of scikit-learn, the community detection
  and the subgraph metrics of igraph are parameters of the definitions below. A library
  call that may raise returns a \<open>result\<close>.
\<close>

datatype error = ValueError | ZeroDivisionError | IndexError | KeyError | TypeError | QhullError

type_synonym 'a result = "error + 'a"

type_synonym coord = "real \<times> real"

text \<open>\<^verbatim>\<open>great_circle(coord1, coord2).kilometers\<close>, which is all that \<open>haversine_distance\<close> returns.\<close>

type_synonym distance = "coord \<Rightarrow> coord \<Rightarrow> real result"

fun bind :: "'a result \<Rightarrow> ('a \<Rightarrow> 'b result) \<Rightarrow> 'b result" where
  "bind (Inl e) f = Inl e"
| "bind (Inr v) f = f v"

text \<open>A loop body that may raise, run over a list from left to right.\<close>

fun traverse :: "('a \<Rightarrow> 'b result) \<Rightarrow> 'a list \<Rightarrow> 'b list result" where
  "traverse f [] = Inr []"
| "traverse f (x # xs) = bind (f x) (\<lambda>y. bind (traverse f xs) (\<lambda>ys. Inr (y # ys)))"

text \<open>Python's \<^verbatim>\<open>a / b\<close> on numbers.\<close>

definition py_div :: "real \<Rightarrow> real \<Rightarrow> real result" where
  "py_div a b = (if b = 0 then Inl ZeroDivisionError else Inr (a / b))"

text \<open>\<^verbatim>\<open>math.sqrt\<close> raises ValueError on a negative argument.\<close>

definition py_sqrt :: "real \<Rightarrow> real result" where
  "py_sqrt x = (if x < 0 then Inl ValueError else Inr (sqrt x))"

text \<open>\<^verbatim>\<open>min\<close> and \<^verbatim>\<open>max\<close> of a sequence raise ValueError on the empty one.\<close>

fun py_min :: "real list \<Rightarrow> real result" where
  "py_min [] = Inl ValueError"
| "py_min (x # xs) = Inr (fold min xs x)"

fun py_max :: "real list \<Rightarrow> real result" where
  "py_max [] = Inl ValueError"
| "py_max (x # xs) = Inr (fold max xs x)"

text \<open>
  \<^verbatim>\<open>round(x, n)\<close>: to \<open>n\<close> decimal places, a tie going to the even neighbour.
\<close>

definition round_half_even :: "real \<Rightarrow> int" where
  "round_half_even x =
     (let f = \<lfloor>x\<rfloor>; d = x - of_int f
      in if d < 1 / 2 then f
         else if 1 / 2 < d then f + 1
         else if even f then f else f + 1)"

definition py_round :: "real \<Rightarrow> nat \<Rightarrow> real" where
  "py_round x n = of_int (round_half_even (x * 10 ^ n)) / 10 ^ n"

text \<open>\<^verbatim>\<open>itertools.combinations(xs, 2)\<close>, also the order of the loops \<^verbatim>\<open>for i ... for j in range(i + 1, n)\<close>.\<close>

fun combinations2 :: "'a list \<Rightarrow> ('a \<times> 'a) list" where
  "combinations2 [] = []"
| "combinations2 (x # xs) = map (Pair x) xs @ combinations2 xs"

text \<open>\<^verbatim>\<open>xs[i]\<close> on a list.\<close>

definition py_index :: "'a list \<Rightarrow> nat \<Rightarrow> 'a result" where
  "py_index xs i = (if i < length xs then Inr (xs ! i) else Inl IndexError)"

section \<open>The graph object\<close>

text \<open>
  An igraph \<^verbatim>\<open>Graph\<close> as the scripts use it: a vertex count, the list of edges in the order
  they were added (igraph keeps parallel edges and loops), and one list per vertex
  attribute, empty while the attribute is not set.
\<close>

record graph =
  vcount :: nat
  edges :: "(nat \<times> nat) list"
  feature_type :: "string list"
  latitude :: "real list"
  longitude :: "real list"

definition empty_graph :: graph where
  "empty_graph = \<lparr>vcount = 0, edges = [], feature_type = [], latitude = [], longitude = []\<rparr>"

text \<open>\<^verbatim>\<open>g.vs[i][attr]\<close>: IndexError past the last vertex, KeyError when the attribute is not set.\<close>

definition vs_attr :: "graph \<Rightarrow> (graph \<Rightarrow> 'a list) \<Rightarrow> nat \<Rightarrow> 'a result" where
  "vs_attr g attr i =
     (if \<not> i < vcount g then Inl IndexError
      else if \<not> i < length (attr g) then Inl KeyError
      else Inr (attr g ! i))"

text \<open>\<^verbatim>\<open>g.add_vertices(n)\<close> and \<^verbatim>\<open>g.add_edges(es)\<close>; the latter refuses an endpoint that is no vertex.\<close>

definition add_vertices :: "graph \<Rightarrow> nat \<Rightarrow> graph" where
  "add_vertices g n = g\<lparr>vcount := vcount g + n\<rparr>"

definition add_edges :: "graph \<Rightarrow> (nat \<times> nat) list \<Rightarrow> graph result" where
  "add_edges g es =
     (if \<forall>e \<in> set es. fst e < vcount g \<and> snd e < vcount g
      then Inr (g\<lparr>edges := edges g @ es\<rparr>)
      else Inl ValueError)"

text \<open>
  \<^verbatim>\<open>g.subgraph(ids)\<close>: the subgraph induced by the given vertices, renumbered in
  increasing order of their old index. \<^verbatim>\<open>g.degree()\<close>: for every vertex the number of edge
  ends at it.
\<close>

definition index_of :: "nat list \<Rightarrow> nat \<Rightarrow> nat" where
  "index_of vs v = length (takeWhile (\<lambda>w. w \<noteq> v) vs)"

definition pick_attr :: "nat list \<Rightarrow> 'a list \<Rightarrow> 'a list" where
  "pick_attr vs attr = map (\<lambda>v. attr ! v) (filter (\<lambda>v. v < length attr) vs)"

definition subgraph :: "graph \<Rightarrow> nat list \<Rightarrow> graph result" where
  "subgraph g ids =
     (if \<forall>i \<in> set ids. i < vcount g
      then (let vs = sorted_list_of_set (set ids)
            in Inr \<lparr>vcount = length vs,
                    edges = map (\<lambda>(a, b). (index_of vs a, index_of vs b))
                              (filter (\<lambda>(a, b). a \<in> set vs \<and> b \<in> set vs) (edges g)),
                    feature_type = pick_attr vs (feature_type g),
                    latitude = pick_attr vs (latitude g),
                    longitude = pick_attr vs (longitude g)\<rparr>)
      else Inl ValueError)"

definition degree :: "graph \<Rightarrow> nat list" where
  "degree g =
     map (\<lambda>v. length (filter (\<lambda>e. fst e = v) (edges g)) + length (filter (\<lambda>e. snd e = v) (edges g)))
       [0..<vcount g]"

text \<open>
  How often the undirected edge between \<open>a\<close> and \<open>b\<close> occurs in the graph, in either
  direction. The graph is simple when no edge is a loop and none occurs twice.
\<close>

definition multiplicity :: "graph \<Rightarrow> nat \<Rightarrow> nat \<Rightarrow> nat" where
  "multiplicity g a b = length (filter (\<lambda>e. e = (a, b) \<or> e = (b, a)) (edges g))"

definition simple_graph :: "graph \<Rightarrow> bool" where
  "simple_graph g \<longleftrightarrow>
     (\<forall>e \<in> set (edges g). fst e \<noteq> snd e \<and> multiplicity g (fst e) (snd e) = 1)"

section \<open>network_gen.py\<close>

text \<open>
  The file accessible_facilities_san_francisco.json maps a feature name to a response.
  \<^verbatim>\<open>api.py\<close> writes \<^verbatim>\<open>null\<close> for a query that failed; subscripting it raises TypeError. An
  object without an \<^verbatim>\<open>elements\<close> entry raises KeyError.
\<close>

record element =
  lat :: real
  lon :: real

datatype response = Null | NoElements | Elements "element list"

type_synonym facilities = "(string \<times> response) list"

text \<open>
  The ingestion loop over \<^verbatim>\<open>data.items()\<close>, carrying the lists \<^verbatim>\<open>coordinates\<close> and
  \<^verbatim>\<open>feature_types\<close>.
\<close>

fun ingest :: "facilities \<Rightarrow> coord list \<times> string list \<Rightarrow> (coord list \<times> string list) result" where
  "ingest [] acc = Inr acc"
| "ingest ((feature, items) # rest) acc =
     (case items of
        Null \<Rightarrow> Inl TypeError
      | NoElements \<Rightarrow> Inl KeyError
      | Elements els \<Rightarrow>
          ingest rest
            (if length els \<noteq> 0
             then fold (\<lambda>item (coordinates, feature_types).
                          (coordinates @ [(lat item, lon item)], feature_types @ [feature]))
                    els acc
             else acc))"

text \<open>
  The distance matrix is filled for every pair \<open>i < j\<close> and never read again in this
  script; what remains of it is that a distance the library refuses stops the script.
\<close>

definition dist_matrix :: "distance \<Rightarrow> coord list \<Rightarrow> real list result" where
  "dist_matrix gc coordinates = traverse (\<lambda>(a, b). gc a b) (combinations2 coordinates)"

text \<open>
  \<^verbatim>\<open>edges\<close> is a Python set of tuples: adding a tuple that is already there changes
  nothing. The set is kept as the list of its elements in the order they were first
  added; the order in which \<^verbatim>\<open>list(edges)\<close> hands them on is not fixed by Python and no
  statement below depends on it.
\<close>

definition set_add :: "'a list \<Rightarrow> 'a \<Rightarrow> 'a list" where
  "set_add s x = (if x \<in> set s then s else s @ [x])"

type_synonym simplex = "nat \<times> nat \<times> nat"

definition extract_edges :: "simplex list \<Rightarrow> (nat \<times> nat) list" where
  "extract_edges simplices =
     fold (\<lambda>(s0, s1, s2) edges.
             set_add (set_add (set_add edges (s0, s1)) (s1, s2)) (s2, s0))
       simplices []"

text \<open>
  \<^verbatim>\<open>Delaunay(coordinates).simplices\<close>. The constructor of scipy refuses an input that has no
  simplex to start from: it raises ValueError for an empty list of points and QhullError
  for one or two points. These two refusals are written out, since the script meets them
  without any test of its own. What the library does with three points or more, the
  triangulation or a further QhullError (for points on one line, for instance), is the
  parameter \<open>triangulate\<close>.
\<close>

definition Delaunay :: "(coord list \<Rightarrow> simplex list result) \<Rightarrow> coord list \<Rightarrow> simplex list result" where
  "Delaunay triangulate coordinates =
     (if coordinates = [] then Inl ValueError
      else if length coordinates < 3 then Inl QhullError
      else triangulate coordinates)"

text \<open>The whole script.\<close>

definition network_gen ::
  "distance \<Rightarrow> (coord list \<Rightarrow> simplex list result) \<Rightarrow> facilities \<Rightarrow> graph result" where
  "network_gen gc triangulate data =
     bind (ingest data ([], [])) (\<lambda>(coordinates, feature_types).
     let num_points = length coordinates
     in bind (dist_matrix gc coordinates) (\<lambda>_.
        bind (Delaunay triangulate coordinates) (\<lambda>simplices.
        let edges = extract_edges simplices;
            g = add_vertices empty_graph num_points;
            g = g\<lparr>feature_type := feature_types\<rparr>;
            g = g\<lparr>latitude := map fst coordinates\<rparr>;
            g = g\<lparr>longitude := map snd coordinates\<rparr>
        in add_edges g edges)))"

section \<open>analysis.py\<close>

subsection \<open>The cluster records, as saved to cluster_data.json\<close>

text \<open>
  A metric of the record read back by \<^verbatim>\<open>clean_cluster_data.py\<close> is \<open>None\<close> when its key is
  missing from the file.
\<close>

record topology_metrics =
  diameter :: "real option"
  average_path_length :: "real option"
  density :: "real option"
  clustering_coefficient :: "real option"

record cluster_info =
  cluster_id :: nat
  members :: "nat list"
  centroid :: coord
  radius_meters :: real
  feature_counts :: "(string \<times> int) list"
  topology_metrics :: topology_metrics

subsection \<open>Communities\<close>

text \<open>
  \<^verbatim>\<open>g.community_multilevel()\<close> returns a clustering object that holds one community number
  per vertex, its membership list. Iterating over the object gives, for every number from
  0 to the largest one in use, the list of the vertices that carry it, in increasing
  order.
\<close>

definition clusters_of :: "nat list \<Rightarrow> nat list list" where
  "clusters_of membership =
     map (\<lambda>c. filter (\<lambda>v. membership ! v = c) [0..<length membership])
       [0..<(if membership = [] then 0 else fold max membership 0 + 1)]"

subsection \<open>Centroid, radius and feature counts of one cluster\<close>

definition feature_types :: "string list" where
  "feature_types =
     [''tactile_paving'', ''disabled_parking'', ''accessible_toilets'', ''ramps'',
      ''elevators'', ''accessible_stops'', ''audio_traffic_signals'', ''emergency_phones'',
      ''accessible_entrances'', ''hearing_loops'', ''sign_language_services'',
      ''accessible_hospitals'']"

text \<open>\<^verbatim>\<open>feature_counts[feature_type] += 1\<close> on a dictionary kept as the list of its items.\<close>

definition increment :: "(string \<times> int) list \<Rightarrow> string \<Rightarrow> (string \<times> int) list" where
  "increment fc k = map (\<lambda>(k', v). if k' = k then (k', v + 1) else (k', v)) fc"

fun count_features :: "graph \<Rightarrow> (string \<times> int) list \<Rightarrow> nat list \<Rightarrow> (string \<times> int) list result" where
  "count_features g fc [] = Inr fc"
| "count_features g fc (idx # rest) =
     bind (vs_attr g feature_type idx) (\<lambda>ft.
       count_features g (if ft \<in> fst ` set fc then increment fc ft else fc) rest)"

text \<open>
  \<^verbatim>\<open>np.mean\<close> of an empty list is not a number; the script never gets to use it, since
  \<^verbatim>\<open>max\<close> of the empty sequence raises in the next statement.
\<close>

definition np_mean :: "real list \<Rightarrow> real" where
  "np_mean xs = sum_list xs / real (length xs)"

definition calculate_cluster_metrics ::
  "distance \<Rightarrow> coord list \<Rightarrow> graph \<Rightarrow> nat list \<Rightarrow> (coord \<times> real \<times> (string \<times> int) list) result" where
  "calculate_cluster_metrics gc coordinates g cluster_indices =
     bind (traverse (py_index coordinates) cluster_indices) (\<lambda>cluster_coords.
     let centroid_lat = np_mean (map fst cluster_coords);
         centroid_lon = np_mean (map snd cluster_coords);
         centroid = (centroid_lat, centroid_lon)
     in bind (bind (traverse (gc centroid) cluster_coords) py_max) (\<lambda>max_distance.
        bind (count_features g (map (\<lambda>feature. (feature, 0)) feature_types) cluster_indices)
          (\<lambda>feature_counts. Inr (centroid, max_distance, feature_counts))))"

subsection \<open>The loop over the clusters\<close>

text \<open>
  What igraph computes on the subgraph of a cluster: diameter, average path length,
  density and transitivity. A value that is not a number is \<open>None\<close>; the script replaces
  it by 0.
\<close>

record subgraph_metrics =
  sg_diameter :: "real option"
  sg_average_path_length :: "real option"
  sg_density :: "real option"
  sg_transitivity :: "real option"

definition nan_to_0 :: "real option \<Rightarrow> real" where
  "nan_to_0 v = (case v of None \<Rightarrow> 0 | Some x \<Rightarrow> x)"

definition cluster_record ::
  "distance \<Rightarrow> (graph \<Rightarrow> subgraph_metrics) \<Rightarrow> coord list \<Rightarrow> graph \<Rightarrow> nat \<times> nat list \<Rightarrow> cluster_info result" where
  "cluster_record gc metrics coordinates g ic =
     (case ic of (i, cluster) \<Rightarrow>
        bind (calculate_cluster_metrics gc coordinates g cluster) (\<lambda>(centroid, radius, feature_counts).
        bind (subgraph g cluster) (\<lambda>subgraph.
        let m = metrics subgraph
        in Inr \<lparr>cluster_id = i + 1,
                members = cluster,
                centroid = centroid,
                radius_meters = radius * 1000,
                feature_counts = feature_counts,
                topology_metrics =
                  \<lparr>diameter = Some (nan_to_0 (sg_diameter m)),
                   average_path_length = Some (nan_to_0 (sg_average_path_length m)),
                   density = Some (nan_to_0 (sg_density m)),
                   clustering_coefficient = Some (nan_to_0 (sg_transitivity m))\<rparr>\<rparr>)))"

text \<open>
  \<^verbatim>\<open>mds.fit_transform(coordinates)\<close> computes the two-dimensional layout before the
  communities are detected. The layout is used for the plot only, but an exception of the
  call stops the script: the library raises ValueError for an empty list of coordinates,
  which is what a graph without vertices gives. This refusal is written out; what the
  library does with a list that is not empty is the parameter \<open>mds\<close>.
\<close>

definition fit_transform :: "(coord list \<Rightarrow> coord list result) \<Rightarrow> coord list \<Rightarrow> coord list result" where
  "fit_transform mds coordinates =
     (if coordinates = [] then Inl ValueError else mds coordinates)"

text \<open>
  The script up to the list \<^verbatim>\<open>cluster_data\<close>. \<open>community_multilevel\<close> gives the membership
  list of the clustering the library returns.
\<close>

definition analysis ::
  "distance \<Rightarrow> (coord list \<Rightarrow> coord list result) \<Rightarrow> (graph \<Rightarrow> nat list)
     \<Rightarrow> (graph \<Rightarrow> subgraph_metrics) \<Rightarrow> graph \<Rightarrow> cluster_info list result" where
  "analysis gc mds community_multilevel metrics g =
     bind (traverse (\<lambda>i. bind (vs_attr g latitude i) (\<lambda>la.
                          bind (vs_attr g longitude i) (\<lambda>lo. Inr (la, lo)))) [0..<vcount g])
       (\<lambda>coordinates.
     bind (fit_transform mds coordinates) (\<lambda>layout_2d.
     let clusters = clusters_of (community_multilevel g)
     in traverse (cluster_record gc metrics coordinates g) (enumerate 0 clusters)))"

section \<open>clean_cluster_data.py\<close>

subsection \<open>The data saved to cleaned_data.json\<close>

record core_values =
  cv_average_degree :: real
  cv_radius :: real
  cv_diameter :: real
  cv_average_path_length :: real
  cv_density :: real
  cv_clustering_coefficient :: real

record cluster =
  cid :: nat
  center_coordinate_lat :: real
  center_coordinate_lon :: real
  radius :: real
  accessibility_score :: real
  core_values :: core_values

subsection \<open>The helper functions\<close>

text \<open>The loop of \<open>calculate_mean_pairwise_distance\<close> carries the pair (total_distance, count).\<close>

fun pairwise_loop :: "distance \<Rightarrow> (coord \<times> coord) list \<Rightarrow> real \<times> nat \<Rightarrow> (real \<times> nat) result" where
  "pairwise_loop gc [] acc = Inr acc"
| "pairwise_loop gc ((coord1, coord2) # rest) acc =
     bind (gc coord1 coord2) (\<lambda>d. pairwise_loop gc rest (fst acc + d, snd acc + 1))"

definition calculate_mean_pairwise_distance :: "distance \<Rightarrow> coord list \<Rightarrow> real result" where
  "calculate_mean_pairwise_distance gc member_coordinates =
     (if length member_coordinates < 2 then Inr 0
      else bind (pairwise_loop gc (combinations2 member_coordinates) (0, 0))
             (\<lambda>(total_distance, count). py_div total_distance (real count)))"

definition calculate_proximity_factor :: "distance \<Rightarrow> coord list \<Rightarrow> real result" where
  "calculate_proximity_factor gc member_coordinates =
     bind (calculate_mean_pairwise_distance gc member_coordinates)
       (\<lambda>mean_distance. py_div 1 (1 + mean_distance))"

definition calculate_diversity_index :: "(string \<times> int) list \<Rightarrow> real result" where
  "calculate_diversity_index fc =
     (let total_features = sum_list (map snd fc)
      in if total_features > 0
         then py_div (real (length (filter (\<lambda>(key, val). val > 0) fc))) (real_of_int total_features)
         else Inr 0)"

definition calculate_average_degree :: "graph \<Rightarrow> real result" where
  "calculate_average_degree g =
     (if vcount g > 0 then py_div (real (sum_list (degree g))) (real (vcount g)) else Inr 0)"

definition calculate_radius :: "distance \<Rightarrow> coord \<Rightarrow> coord list \<Rightarrow> real result" where
  "calculate_radius gc c member_coordinates =
     (if member_coordinates = [] then Inr 0
      else bind (traverse (gc c) member_coordinates) py_max)"

subsection \<open>First pass: one cleaned record per cluster of radius above 10 metres\<close>

text \<open>\<^verbatim>\<open>topology_metrics.get(key, 0)\<close>.\<close>

definition get_or_0 :: "real option \<Rightarrow> real" where
  "get_or_0 v = (case v of None \<Rightarrow> 0 | Some x \<Rightarrow> x)"

text \<open>
  The body of the loop for a cluster that passes the radius test. The
  \<^verbatim>\<open>clustering_coefficient\<close> that the source first computes on the subgraph is overwritten
  by the one of \<^verbatim>\<open>topology_metrics\<close> in the second \<^verbatim>\<open>update\<close>, so only the latter is kept.
\<close>

definition clean_cluster :: "distance \<Rightarrow> graph \<Rightarrow> cluster_info \<Rightarrow> cluster result" where
  "clean_cluster gc g d =
     (let center_lat = py_round (fst (centroid d)) 6;
          center_lon = py_round (snd (centroid d)) 6;
          member_ids = members d
      in bind (traverse (\<lambda>member_id.
                 bind (vs_attr g latitude member_id) (\<lambda>la.
                 bind (vs_attr g longitude member_id) (\<lambda>lo. Inr (la, lo)))) member_ids)
           (\<lambda>member_coordinates.
         bind (calculate_proximity_factor gc member_coordinates) (\<lambda>proximity_factor.
         bind (calculate_diversity_index (feature_counts d)) (\<lambda>diversity_index.
         bind (subgraph g member_ids) (\<lambda>g_subgraph.
         bind (calculate_average_degree g_subgraph) (\<lambda>avg_deg.
         bind (calculate_radius gc (center_lat, center_lon) member_coordinates) (\<lambda>rad.
         Inr \<lparr>cid = cluster_id d,
              center_coordinate_lat = center_lat,
              center_coordinate_lon = center_lon,
              radius = py_round (radius_meters d) 2,
              accessibility_score = py_round (proximity_factor + diversity_index) 4,
              core_values =
                \<lparr>cv_average_degree = py_round avg_deg 2,
                 cv_radius = py_round rad 2,
                 cv_diameter = py_round (get_or_0 (diameter (topology_metrics d))) 2,
                 cv_average_path_length = py_round (get_or_0 (average_path_length (topology_metrics d))) 2,
                 cv_density = py_round (get_or_0 (density (topology_metrics d))) 4,
                 cv_clustering_coefficient =
                   py_round (get_or_0 (clustering_coefficient (topology_metrics d))) 4\<rparr>\<rparr>)))))))"

fun first_pass :: "distance \<Rightarrow> graph \<Rightarrow> cluster_info list \<Rightarrow> cluster list result" where
  "first_pass gc g [] = Inr []"
| "first_pass gc g (d # ds) =
     (if radius_meters d > 10
      then bind (clean_cluster gc g d) (\<lambda>c. bind (first_pass gc g ds) (\<lambda>cs. Inr (c # cs)))
      else first_pass gc g ds)"

subsection \<open>Second pass: z-scores rescaled to [-1, 1]\<close>

definition mean_score :: "real list \<Rightarrow> real result" where
  "mean_score scores =
     (if scores \<noteq> [] then py_div (sum_list scores) (real (length scores)) else Inr 0)"

definition std_dev :: "real list \<Rightarrow> real \<Rightarrow> real result" where
  "std_dev scores mean =
     (if length scores > 1
      then bind (py_div (sum_list (map (\<lambda>x. (x - mean) ^ 2) scores)) (real (length scores))) py_sqrt
      else Inr 0)"

definition z_scores :: "real list \<Rightarrow> real list result" where
  "z_scores scores =
     bind (mean_score scores) (\<lambda>mean.
     bind (std_dev scores mean) (\<lambda>sd.
     traverse (\<lambda>original_score.
        if sd > 0 then py_div (original_score - mean) sd else Inr 0) scores))"

definition normalized_score :: "real \<Rightarrow> real \<Rightarrow> real \<Rightarrow> real result" where
  "normalized_score min_z max_z z =
     (if max_z > min_z
      then bind (py_div (z - min_z) (max_z - min_z)) (\<lambda>q. Inr (py_round (2 * q - 1) 4))
      else Inr (py_round 0 4))"

definition normalize :: "cluster list \<Rightarrow> cluster list result" where
  "normalize cleaned_data =
     bind (z_scores (map accessibility_score cleaned_data)) (\<lambda>zs.
     bind (py_min zs) (\<lambda>min_z_score.
     bind (py_max zs) (\<lambda>max_z_score.
     traverse (\<lambda>(c, z).
        bind (normalized_score min_z_score max_z_score z) (\<lambda>s.
        Inr (c\<lparr>accessibility_score := s\<rparr>))) (zip cleaned_data zs))))"

text \<open>The whole script, from the loaded data to the list written to cleaned_data.json.\<close>

definition clean_cluster_data :: "distance \<Rightarrow> graph \<Rightarrow> cluster_info list \<Rightarrow> cluster list result" where
  "clean_cluster_data gc g data = bind (first_pass gc g data) normalize"

section \<open>Auxiliary definitions\<close>

text \<open>The value the second pass writes for a z-score \<open>z\<close>, given the least and the greatest one.\<close>

definition rescaled :: "real \<Rightarrow> real \<Rightarrow> real \<Rightarrow> real" where
  "rescaled lo hi z = (if hi > lo then py_round (2 * ((z - lo) / (hi - lo)) - 1) 4 else 0)"

text \<open>A cleaned record with a given id and score, for examples.\<close>

definition scored :: "nat \<Rightarrow> real \<Rightarrow> cluster" where
  "scored i s = \<lparr>cid = i, center_coordinate_lat = 0, center_coordinate_lon = 0, radius = 20,
     accessibility_score = s,
     core_values = \<lparr>cv_average_degree = 0, cv_radius = 0, cv_diameter = 0,
       cv_average_path_length = 0, cv_density = 0, cv_clustering_coefficient = 0\<rparr>\<rparr>"

text \<open>
  A stand-in for the library distance, used only to run the scripts on examples: 111 km
  for each degree along the grid. No theorem about the scripts depends on it.
\<close>

definition grid_distance :: distance where
  "grid_distance a b = Inr (111 * (\<bar>fst a - fst b\<bar> + \<bar>snd a - snd b\<bar>))"

text \<open>A graph of two vertices and a cluster record over it, for examples.\<close>

definition example_graph :: graph where
  "example_graph = \<lparr>vcount = 2, edges = [(0, 1)], feature_type = [''ramps'', ''elevators''],
     latitude = [0, 0], longitude = [0, 1]\<rparr>"

definition example_cluster :: "nat \<Rightarrow> real \<Rightarrow> cluster_info" where
  "example_cluster i r = \<lparr>cluster_id = i, members = [0, 1], centroid = (0, 1 / 2),
     radius_meters = r, feature_counts = [(''ramps'', 1), (''elevators'', 1)],
     topology_metrics = \<lparr>diameter = Some 1, average_path_length = Some 1, density = Some 1,
       clustering_coefficient = Some 0\<rparr>\<rparr>"

text \<open>
  Stand-ins for the layout and for the subgraph metrics of the libraries, used only to run
  \<^verbatim>\<open>analysis.py\<close> on examples. No theorem about the script depends on them.
\<close>

definition example_layout :: "coord list \<Rightarrow> coord list result" where
  "example_layout coordinates = Inr coordinates"

definition example_metrics :: "graph \<Rightarrow> subgraph_metrics" where
  "example_metrics sg = \<lparr>sg_diameter = Some 0, sg_average_path_length = None, sg_density = None,
     sg_transitivity = None\<rparr>"

text \<open>The number of clusters of a membership list.\<close>

definition n_clusters :: "nat list \<Rightarrow> nat" where
  "n_clusters membership = (if membership = [] then 0 else fold max membership 0 + 1)"

text \<open>
  Four points that are the corners of a convex quadrilateral, all of one feature, and their
  Delaunay triangulation: two counterclockwise triangles that share the diagonal from point
  0 to point 2. \<open>quad_graph\<close> is the graph \<^verbatim>\<open>network_gen.py\<close> builds from them.
\<close>

definition quad_facilities :: "string \<Rightarrow> facilities" where
  "quad_facilities feature =
     [(feature, Elements [\<lparr>lat = 0, lon = 0\<rparr>, \<lparr>lat = 1, lon = 0\<rparr>, \<lparr>lat = 1, lon = 1\<rparr>, \<lparr>lat = 0, lon = 2\<rparr>])]"

definition quad_delaunay :: "coord list \<Rightarrow> simplex list result" where
  "quad_delaunay coordinates = Inr [(0, 1, 2), (0, 2, 3)]"

definition quad_graph :: "string \<Rightarrow> graph" where
  "quad_graph feature =
     \<lparr>vcount = 4, edges = [(0, 1), (1, 2), (2, 0), (0, 2), (2, 3), (3, 0)],
      feature_type = [feature, feature, feature, feature],
      latitude = [0, 1, 1, 0], longitude = [0, 0, 1, 2]\<rparr>"

text \<open>
  A membership list for the graph of the quadrilateral: all four vertices in one community,
  with number 0. No split of this graph into several communities has a modularity above 0,
  the modularity of the single community. And the shape of the record \<^verbatim>\<open>analysis.py\<close> builds
  from it in the examples.
\<close>

definition one_community :: "graph \<Rightarrow> nat list" where
  "one_community g = [0, 0, 0, 0]"

definition quad_record :: "nat \<Rightarrow> nat list \<Rightarrow> coord \<Rightarrow> real \<Rightarrow> int \<Rightarrow> cluster_info" where
  "quad_record i ms c r n =
     \<lparr>cluster_id = i, members = ms, centroid = c, radius_meters = r,
      feature_counts = map (\<lambda>feature. (feature, if feature = ''ramps'' then n else 0)) feature_types,
      topology_metrics = \<lparr>diameter = Some 0, average_path_length = Some 0, density = Some 0,
        clustering_coefficient = Some 0\<rparr>\<rparr>"

text \<open>
  The point records of the input file in the order of the loop: the coordinate pair and the
  feature name of every element of every response that has its list of elements. And the
  input file with every feature name \<open>f\<close> replaced by \<open>h f\<close>.
\<close>

definition records_of :: "facilities \<Rightarrow> (coord \<times> string) list" where
  "records_of data =
     concat (map (\<lambda>(feature, items).
                    case items of
                      Elements els \<Rightarrow> map (\<lambda>item. ((lat item, lon item), feature)) els
                    | _ \<Rightarrow> [])
               data)"

definition rename :: "(string \<Rightarrow> string) \<Rightarrow> facilities \<Rightarrow> facilities" where
  "rename h data = map (\<lambda>(feature, items). (h feature, items)) data"

text \<open>Inputs of two points and of one point.\<close>

definition two_facilities :: facilities where
  "two_facilities = [(''ramps'', Elements [\<lparr>lat = 0, lon = 0\<rparr>, \<lparr>lat = 0, lon = 1\<rparr>])]"

definition one_facility :: facilities where
  "one_facility = [(''ramps'', Elements [\<lparr>lat = 0, lon = 0\<rparr>])]"

section \<open>Rounding, loops and the minimum of a list\<close>

lemma round_half_even_of_int: "round_half_even (of_int k) = k"
  by (simp add: round_half_even_def)

lemma round_half_even_bounds: "x - 1/2 \<le> of_int (round_half_even x) \<and> of_int (round_half_even x) \<le> x + 1/2"
  unfolding round_half_even_def Let_def by (auto; linarith)

lemma round_half_even_mono:
  assumes "x \<le> y"
  shows "round_half_even x \<le> round_half_even y"
proof (cases "\<lfloor>x\<rfloor> = \<lfloor>y\<rfloor>")
  case True
  then show ?thesis using assms unfolding round_half_even_def Let_def by auto
next
  case False
  then have "\<lfloor>x\<rfloor> < \<lfloor>y\<rfloor>" using assms floor_mono[of x y] by linarith
  then have "\<lfloor>x\<rfloor> + 1 \<le> \<lfloor>y\<rfloor>" by simp
  moreover have "round_half_even x \<le> \<lfloor>x\<rfloor> + 1" unfolding round_half_even_def Let_def by auto
  moreover have "\<lfloor>y\<rfloor> \<le> round_half_even y" unfolding round_half_even_def Let_def by auto
  ultimately show ?thesis by linarith
qed

lemma py_round_of_int: "py_round (of_int k) n = of_int k"
proof -
  have "(of_int k :: real) * 10 ^ n = of_int (k * 10 ^ n)" by simp
  then have "round_half_even (of_int k * 10 ^ n) = k * 10 ^ n"
    using round_half_even_of_int by metis
  then show ?thesis by (simp add: py_round_def)
qed

lemma py_round_mono: "x \<le> y \<Longrightarrow> py_round x n \<le> py_round y n"
  unfolding py_round_def
  by (intro divide_right_mono) (auto intro!: round_half_even_mono mult_right_mono)

lemma py_round_0: "py_round 0 n = 0" using py_round_of_int[of 0 n] by simp
lemma py_round_1: "py_round 1 n = 1" using py_round_of_int[of 1 n] by simp
lemma py_round_m1: "py_round (-1) n = -1" using py_round_of_int[of "-1" n] by simp

lemma traverse_total:
  "(\<And>x. x \<in> set xs \<Longrightarrow> f x = Inr (h x)) \<Longrightarrow> traverse f xs = Inr (map h xs)"
  by (induction xs) auto

lemma fold_min_Min: "fold min xs (x::real) = Min (set (x # xs))"
  by (rule Min.set_eq_fold[symmetric])

lemma fold_max_Max: "fold max xs (x::real) = Max (set (x # xs))"
  by (rule Max.set_eq_fold[symmetric])

lemma py_min_nonempty: "zs \<noteq> [] \<Longrightarrow> py_min zs = Inr (Min (set zs))"
  by (cases zs) (simp_all only: py_min.simps fold_min_Min, simp)

lemma py_max_nonempty: "zs \<noteq> [] \<Longrightarrow> py_max zs = Inr (Max (set zs))"
  by (cases zs) (simp_all only: py_max.simps fold_max_Max, simp)

section \<open>The second pass of clean_cluster_data.py\<close>

lemma mean_score_total: "\<exists>m. mean_score xs = Inr m"
  by (simp add: mean_score_def py_div_def)

lemma std_dev_total: "\<exists>sd. std_dev xs m = Inr sd"
proof -
  have "0 \<le> sum_list (map (\<lambda>x. (x - m) ^ 2) xs) / real (length xs)"
    by (intro divide_nonneg_nonneg sum_list_nonneg) auto
  then show ?thesis
    by (auto simp: std_dev_def py_div_def py_sqrt_def)
qed

lemma z_scores_total: "\<exists>f. z_scores xs = Inr (map f xs)"
proof -
  obtain m where m: "mean_score xs = Inr m" using mean_score_total by blast
  obtain sd where sd: "std_dev xs m = Inr sd" using std_dev_total by blast
  have "traverse (\<lambda>x. if sd > 0 then py_div (x - m) sd else Inr 0) xs
        = Inr (map (\<lambda>x. if sd > 0 then (x - m) / sd else 0) xs)"
    by (rule traverse_total) (simp add: py_div_def)
  then have "z_scores xs = Inr (map (\<lambda>x. if sd > 0 then (x - m) / sd else 0) xs)"
    unfolding z_scores_def by (simp add: m sd)
  then show ?thesis by (rule exI[where x = "\<lambda>x. if sd > 0 then (x - m) / sd else 0"])
qed

lemma normalized_score_total: "normalized_score lo hi z = Inr (rescaled lo hi z)"
  by (simp add: normalized_score_def rescaled_def py_div_def py_round_0)

lemma rescaled_range:
  assumes "lo \<le> z" "z \<le> hi"
  shows "-1 \<le> rescaled lo hi z \<and> rescaled lo hi z \<le> 1"
proof (cases "hi > lo")
  case True
  have q0: "0 \<le> (z - lo) / (hi - lo)" using assms True by simp
  have q1: "(z - lo) / (hi - lo) \<le> 1" using assms True by simp
  have "py_round (-1) 4 \<le> py_round (2 * ((z - lo) / (hi - lo)) - 1) 4"
    by (rule py_round_mono) (use q0 in linarith)
  moreover have "py_round (2 * ((z - lo) / (hi - lo)) - 1) 4 \<le> py_round 1 4"
    by (rule py_round_mono) (use q1 in linarith)
  ultimately show ?thesis using True by (simp add: rescaled_def py_round_1 py_round_m1)
next
  case False
  then show ?thesis by (simp add: rescaled_def)
qed

lemma rescaled_lo: "lo < hi \<Longrightarrow> rescaled lo hi lo = -1"
  by (simp add: rescaled_def py_round_m1)

lemma rescaled_hi: "lo < hi \<Longrightarrow> rescaled lo hi hi = 1"
  by (simp add: rescaled_def py_round_1)

lemma rescaled_eq: "\<not> lo < hi \<Longrightarrow> rescaled lo hi z = 0"
  by (simp add: rescaled_def)

lemma normalize_nonempty:
  assumes "cs \<noteq> []" and zs: "z_scores (map accessibility_score cs) = Inr zs" and len: "length zs = length cs"
  shows "normalize cs = Inr (map (\<lambda>(c, z). c\<lparr>accessibility_score := rescaled (Min (set zs)) (Max (set zs)) z\<rparr>) (zip cs zs))"
proof -
  have ne: "zs \<noteq> []" using assms by auto
  have "traverse (\<lambda>(c, z). bind (normalized_score (Min (set zs)) (Max (set zs)) z)
          (\<lambda>s. Inr (c\<lparr>accessibility_score := s\<rparr>))) (zip cs zs)
        = Inr (map (\<lambda>(c, z). c\<lparr>accessibility_score := rescaled (Min (set zs)) (Max (set zs)) z\<rparr>) (zip cs zs))"
    by (rule traverse_total) (auto simp: normalized_score_total)
  then show ?thesis
    unfolding normalize_def by (simp add: zs py_min_nonempty[OF ne] py_max_nonempty[OF ne])
qed

lemma z_scores_example: "z_scores [1, 3] = Inr [- 1, 1]"
  by (simp add: z_scores_def mean_score_def std_dev_def py_div_def py_sqrt_def)

text \<open>
  C1. For every non-empty list of cleaned records the second pass returns normally (no
  division by zero, no other exception) with one record per input record; every score it
  writes lies in [-1, 1]; when the least and the greatest z-score differ, a record whose
  z-score is the least gets -1 and one whose z-score is the greatest gets 1; when they are
  equal, and in particular when all raw scores are the same, every record gets 0.
\<close>

theorem normalize_batch:
  assumes ne: "cleaned_data \<noteq> []"
  shows "\<exists>zs out. z_scores (map accessibility_score cleaned_data) = Inr zs
           \<and> normalize cleaned_data = Inr out
           \<and> length zs = length cleaned_data \<and> length out = length cleaned_data
           \<and> (\<forall>i < length out. - 1 \<le> accessibility_score (out ! i) \<and> accessibility_score (out ! i) \<le> 1)
           \<and> (Min (set zs) < Max (set zs) \<longrightarrow>
                (\<forall>i < length out.
                   (zs ! i = Min (set zs) \<longrightarrow> accessibility_score (out ! i) = - 1) \<and>
                   (zs ! i = Max (set zs) \<longrightarrow> accessibility_score (out ! i) = 1)))
           \<and> (Min (set zs) = Max (set zs) \<longrightarrow> (\<forall>i < length out. accessibility_score (out ! i) = 0))
           \<and> ((\<forall>c \<in> set cleaned_data. accessibility_score c = accessibility_score (hd cleaned_data)) \<longrightarrow>
                (\<forall>i < length out. accessibility_score (out ! i) = 0))"
proof -
  let ?xs = "map accessibility_score cleaned_data"
  obtain f where f: "z_scores ?xs = Inr (map f ?xs)" using z_scores_total by blast
  define zs where "zs = map f ?xs"
  define lo where "lo = Min (set zs)"
  define hi where "hi = Max (set zs)"
  define out where "out = map (\<lambda>(c, z). c\<lparr>accessibility_score := rescaled lo hi z\<rparr>) (zip cleaned_data zs)"
  have zs: "z_scores ?xs = Inr zs" and len: "length zs = length cleaned_data"
    using f by (simp_all add: zs_def)
  have zne: "zs \<noteq> []" using ne len by auto
  have norm: "normalize cleaned_data = Inr out"
    using normalize_nonempty[OF ne zs len] by (simp add: out_def lo_def hi_def)
  have lout: "length out = length cleaned_data" by (simp add: out_def len)
  have sc: "accessibility_score (out ! i) = rescaled lo hi (zs ! i)" if "i < length out" for i
    using that by (simp add: out_def len)
  have bnd: "lo \<le> zs ! i \<and> zs ! i \<le> hi" if "i < length out" for i
    using that lout len by (simp add: lo_def hi_def)
  have range: "\<forall>i < length out. - 1 \<le> accessibility_score (out ! i) \<and> accessibility_score (out ! i) \<le> 1"
    using sc bnd rescaled_range by simp
  have ends: "lo < hi \<longrightarrow> (\<forall>i < length out.
                   (zs ! i = lo \<longrightarrow> accessibility_score (out ! i) = - 1) \<and>
                   (zs ! i = hi \<longrightarrow> accessibility_score (out ! i) = 1))"
    using sc rescaled_lo rescaled_hi by simp
  have flat: "lo = hi \<longrightarrow> (\<forall>i < length out. accessibility_score (out ! i) = 0)"
    using sc rescaled_eq by simp
  have same: "(\<forall>c \<in> set cleaned_data. accessibility_score c = accessibility_score (hd cleaned_data)) \<longrightarrow>
                (\<forall>i < length out. accessibility_score (out ! i) = 0)"
  proof
    assume a: "\<forall>c \<in> set cleaned_data. accessibility_score c = accessibility_score (hd cleaned_data)"
    have "hd cleaned_data \<in> set cleaned_data" using ne by simp
    then have "f (accessibility_score (hd cleaned_data)) \<in> set zs" by (simp add: zs_def)
    moreover have "\<forall>z \<in> set zs. z = f (accessibility_score (hd cleaned_data))"
      using a by (auto simp: zs_def)
    ultimately have "set zs = {f (accessibility_score (hd cleaned_data))}" by blast
    then have "lo = hi" by (simp add: lo_def hi_def)
    then show "\<forall>i < length out. accessibility_score (out ! i) = 0" using flat by simp
  qed
  show ?thesis
    apply (rule exI[where x = zs])
    apply (rule exI[where x = out])
    using zs norm len lout range ends flat same unfolding lo_def hi_def
    apply (intro conjI)
           apply assumption+
    done
qed

theorem normalize_batch_witness:
  "[scored 1 1, scored 2 3] \<noteq> []
   \<and> z_scores (map accessibility_score [scored 1 1, scored 2 3]) = Inr [- 1, 1]
   \<and> (\<exists>out. normalize [scored 1 1, scored 2 3] = Inr out
        \<and> accessibility_score (out ! 0) = - 1 \<and> accessibility_score (out ! 1) = 1)"
proof -
  let ?cs = "[scored 1 1, scored 2 3]"
  have ne: "?cs \<noteq> []" by simp
  have z: "z_scores (map accessibility_score ?cs) = Inr [- 1, 1]"
    by (simp add: scored_def z_scores_example)
  from normalize_batch[OF ne] z obtain out where
    out: "normalize ?cs = Inr out" "length out = length ?cs"
    and ends: "Min (set [- 1, 1 :: real]) < Max (set [- 1, 1]) \<longrightarrow>
                (\<forall>i < length out.
                   ([- 1, 1 :: real] ! i = Min (set [- 1, 1]) \<longrightarrow> accessibility_score (out ! i) = - 1) \<and>
                   ([- 1, 1 :: real] ! i = Max (set [- 1, 1]) \<longrightarrow> accessibility_score (out ! i) = 1))"
    by auto
  have "accessibility_score (out ! 0) = - 1" using ends out(2) by simp
  moreover have "accessibility_score (out ! 1) = 1" using ends out(2) by simp
  ultimately show ?thesis using ne z out(1) by blast
qed

text \<open>
  C2. On an empty batch the script does not end normally. The mean and the standard
  deviation are guarded and come out as 0, the list of z-scores is empty, and then
  \<^verbatim>\<open>min(z_scores)\<close> raises ValueError. This happens when the loaded file has no cluster
  and when no cluster has a radius above 10 metres.
\<close>

theorem empty_batch_raises:
  "mean_score [] = Inr 0 \<and> std_dev [] 0 = Inr 0 \<and> z_scores [] = Inr []
   \<and> normalize [] = Inl ValueError
   \<and> clean_cluster_data gc g [] = Inl ValueError
   \<and> clean_cluster_data gc g [d\<lparr>radius_meters := 5\<rparr>] = Inl ValueError"
  by (simp add: clean_cluster_data_def normalize_def z_scores_def mean_score_def std_dev_def)

section \<open>The first pass of clean_cluster_data.py\<close>

lemma set_combinations2: "set (combinations2 xs) \<subseteq> set xs \<times> set xs"
  by (induction xs) auto

lemma combinations2_nonempty: "2 \<le> length xs \<Longrightarrow> combinations2 xs \<noteq> []"
  by (cases xs; cases "tl xs") auto

lemma pairwise_loop_total:
  assumes "\<forall>p \<in> set ps. \<exists>d. gc (fst p) (snd p) = Inr d \<and> 0 \<le> d"
  shows "\<exists>t. pairwise_loop gc ps acc = Inr (t, snd acc + length ps) \<and> fst acc \<le> t"
  using assms
proof (induction ps arbitrary: acc)
  case Nil
  then show ?case by (cases acc) simp
next
  case (Cons p ps)
  obtain a b where p: "p = (a, b)" by (cases p)
  from Cons.prems p obtain d where d: "gc a b = Inr d" "0 \<le> d" by auto
  from Cons.IH[of "(fst acc + d, snd acc + 1)"] Cons.prems
  obtain t where "pairwise_loop gc ps (fst acc + d, snd acc + 1) = Inr (t, snd acc + 1 + length ps)"
    "fst acc + d \<le> t" by auto
  then show ?case using d p by auto
qed

lemma mean_pairwise_distance_total:
  assumes "\<forall>a \<in> set mc. \<forall>b \<in> set mc. \<exists>d. gc a b = Inr d \<and> 0 \<le> d"
  shows "\<exists>m. calculate_mean_pairwise_distance gc mc = Inr m \<and> 0 \<le> m \<and> (length mc < 2 \<longrightarrow> m = 0)"
proof (cases "length mc < 2")
  case True
  then show ?thesis by (simp add: calculate_mean_pairwise_distance_def)
next
  case False
  have "\<forall>p \<in> set (combinations2 mc). \<exists>d. gc (fst p) (snd p) = Inr d \<and> 0 \<le> d"
    using assms set_combinations2[of mc] by auto
  from pairwise_loop_total[OF this, of "(0, 0)"]
  obtain t where t: "pairwise_loop gc (combinations2 mc) (0, 0) = Inr (t, length (combinations2 mc))" "0 \<le> t"
    by auto
  have "combinations2 mc \<noteq> []" using False combinations2_nonempty[of mc] by simp
  then have "0 < length (combinations2 mc)" by simp
  then show ?thesis using False t
    by (simp add: calculate_mean_pairwise_distance_def py_div_def)
qed

lemma proximity_factor_total:
  assumes "\<forall>a \<in> set mc. \<forall>b \<in> set mc. \<exists>d. gc a b = Inr d \<and> 0 \<le> d"
  shows "\<exists>p. calculate_proximity_factor gc mc = Inr p \<and> 0 < p \<and> p \<le> 1"
proof -
  from mean_pairwise_distance_total[OF assms]
  obtain m where m: "calculate_mean_pairwise_distance gc mc = Inr m" "0 \<le> m" by blast
  then show ?thesis
    by (simp add: calculate_proximity_factor_def py_div_def)
qed

lemma positive_count_le_total:
  fixes fc :: "(string \<times> int) list"
  assumes "\<forall>kv \<in> set fc. 0 \<le> snd kv"
  shows "int (length (filter (\<lambda>(key, val). val > 0) fc)) \<le> sum_list (map snd fc)"
  using assms by (induction fc) auto

lemma diversity_index_total: "\<exists>d. calculate_diversity_index fc = Inr d"
  by (simp add: calculate_diversity_index_def Let_def py_div_def)

lemma diversity_index_range:
  assumes "\<forall>kv \<in> set fc. 0 \<le> snd kv" "calculate_diversity_index fc = Inr d"
  shows "0 \<le> d \<and> d \<le> 1"
proof (cases "sum_list (map snd fc) > 0")
  case True
  have "real (length (filter (\<lambda>(key, val). val > 0) fc)) \<le> real_of_int (sum_list (map snd fc))"
    using positive_count_le_total[OF assms(1)] by linarith
  then show ?thesis using True assms(2)
    by (auto simp: calculate_diversity_index_def Let_def py_div_def)
next
  case False
  then show ?thesis using assms(2) by (auto simp: calculate_diversity_index_def Let_def)
qed

lemma bind_Inr_iff: "bind m f = Inr y \<longleftrightarrow> (\<exists>x. m = Inr x \<and> f x = Inr y)"
  by (cases m) auto

lemma traverse_Inr:
  "traverse f xs = Inr ys \<Longrightarrow> length ys = length xs \<and> (\<forall>i < length xs. f (xs ! i) = Inr (ys ! i))"
proof (induction xs arbitrary: ys)
  case Nil
  then show ?case by simp
next
  case (Cons x xs)
  from Cons.prems obtain y ys' where y: "f x = Inr y" "traverse f xs = Inr ys'" "ys = y # ys'"
    by (auto simp: bind_Inr_iff)
  from Cons.IH[OF y(2)] y show ?case by (auto simp: nth_Cons split: nat.splits)
qed

lemma clean_cluster_cid: "clean_cluster gc g d = Inr c \<Longrightarrow> cid c = cluster_id d"
  unfolding clean_cluster_def Let_def by (auto simp: bind_Inr_iff)

lemma first_pass_filter:
  "first_pass gc g data = first_pass gc g (filter (\<lambda>d. radius_meters d > 10) data)"
  by (induction data) auto

lemma first_pass_ids:
  "first_pass gc g data = Inr cs \<Longrightarrow>
     map cid cs = map cluster_id (filter (\<lambda>d. radius_meters d > 10) data)"
proof (induction data arbitrary: cs)
  case Nil
  then show ?case by simp
next
  case (Cons d ds)
  show ?case
  proof (cases "radius_meters d > 10")
    case True
    with Cons.prems obtain c cs' where c: "clean_cluster gc g d = Inr c" "first_pass gc g ds = Inr cs'" "cs = c # cs'"
      by (auto simp: bind_Inr_iff)
    from Cons.IH[OF c(2)] clean_cluster_cid[OF c(1)] c(3) True show ?thesis by simp
  next
    case False
    with Cons show ?thesis by simp
  qed
qed

lemma first_pass_nonempty:
  "first_pass gc g data = Inr cs \<Longrightarrow> \<exists>d \<in> set data. radius_meters d > 10 \<Longrightarrow> cs \<noteq> []"
  using first_pass_ids[of gc g data cs]
  by (metis (mono_tags, lifting) filter_empty_conv list.map_disc_iff)

lemma normalize_ids: "normalize cs = Inr out \<Longrightarrow> map cid out = map cid cs"
proof -
  assume n: "normalize cs = Inr out"
  have ne: "cs \<noteq> []"
  proof
    assume "cs = []"
    then have "normalize cs = Inl ValueError"
      by (simp add: normalize_def z_scores_def mean_score_def std_dev_def)
    with n show False by simp
  qed
  obtain f where f: "z_scores (map accessibility_score cs) = Inr (map f (map accessibility_score cs))"
    using z_scores_total by blast
  from normalize_nonempty[OF ne f] n
  have "out = map (\<lambda>(c, z). c\<lparr>accessibility_score := rescaled (Min (set (map f (map accessibility_score cs))))
            (Max (set (map f (map accessibility_score cs)))) z\<rparr>) (zip cs (map f (map accessibility_score cs)))"
    by simp
  then show ?thesis by (simp add: list_eq_iff_nth_eq)
qed

lemma normalize_total: "cs \<noteq> [] \<Longrightarrow> \<exists>out. normalize cs = Inr out"
proof -
  assume ne: "cs \<noteq> []"
  obtain f where f: "z_scores (map accessibility_score cs) = Inr (map f (map accessibility_score cs))"
    using z_scores_total by blast
  from normalize_nonempty[OF ne f] show ?thesis by simp
qed

lemma member_coordinates_total:
  assumes "\<forall>m \<in> set ms. m < vcount g \<and> m < length (latitude g) \<and> m < length (longitude g)"
  shows "traverse (\<lambda>member_id.
                 bind (vs_attr g latitude member_id) (\<lambda>la.
                 bind (vs_attr g longitude member_id) (\<lambda>lo. Inr (la, lo)))) ms
         = Inr (map (\<lambda>m. (latitude g ! m, longitude g ! m)) ms)"
  by (rule traverse_total) (use assms in \<open>simp add: vs_attr_def\<close>)

lemma average_degree_total: "\<exists>a. calculate_average_degree g = Inr a"
  by (simp add: calculate_average_degree_def py_div_def)

lemma radius_total:
  assumes "\<forall>a b. \<exists>d. gc a b = Inr d \<and> 0 \<le> d"
  shows "\<exists>r. calculate_radius gc c mc = Inr r"
proof (cases "mc = []")
  case True
  then show ?thesis by (simp add: calculate_radius_def)
next
  case False
  define h where "h = (\<lambda>b. SOME d. gc c b = Inr d)"
  have "gc c b = Inr (h b)" for b
    unfolding h_def using assms by (metis (mono_tags, lifting) someI_ex)
  then have "traverse (gc c) mc = Inr (map h mc)" by (intro traverse_total) simp
  moreover have "map h mc \<noteq> []" using False by simp
  ultimately show ?thesis using False
    by (simp add: calculate_radius_def py_max_nonempty)
qed

lemma clean_cluster_total:
  assumes gc: "\<forall>a b. \<exists>d. gc a b = Inr d \<and> 0 \<le> d"
    and ms: "\<forall>m \<in> set (members d). m < vcount g \<and> m < length (latitude g) \<and> m < length (longitude g)"
  shows "\<exists>c. clean_cluster gc g d = Inr c"
proof -
  let ?mc = "map (\<lambda>m. (latitude g ! m, longitude g ! m)) (members d)"
  have gc': "\<forall>a \<in> set ?mc. \<forall>b \<in> set ?mc. \<exists>d. gc a b = Inr d \<and> 0 \<le> d" using gc by blast
  obtain p where p: "calculate_proximity_factor gc ?mc = Inr p"
    using proximity_factor_total[OF gc'] by blast
  obtain dv where dv: "calculate_diversity_index (feature_counts d) = Inr dv"
    using diversity_index_total by blast
  obtain sg where sg: "subgraph g (members d) = Inr sg"
    using ms by (auto simp: subgraph_def Let_def)
  obtain a where a: "calculate_average_degree sg = Inr a" using average_degree_total by blast
  obtain r where r: "calculate_radius gc (py_round (fst (centroid d)) 6, py_round (snd (centroid d)) 6) ?mc = Inr r"
    using radius_total[OF gc] by blast
  show ?thesis
    unfolding clean_cluster_def Let_def
    by (simp add: member_coordinates_total[OF ms] p dv sg a r)
qed

lemma first_pass_total:
  assumes gc: "\<forall>a b. \<exists>d. gc a b = Inr d \<and> 0 \<le> d"
    and ms: "\<forall>d \<in> set data. radius_meters d > 10 \<longrightarrow>
               (\<forall>m \<in> set (members d). m < vcount g \<and> m < length (latitude g) \<and> m < length (longitude g))"
  shows "\<exists>cs. first_pass gc g data = Inr cs"
  using ms
proof (induction data)
  case Nil
  then show ?case by simp
next
  case (Cons d ds)
  then obtain cs where cs: "first_pass gc g ds = Inr cs" by auto
  show ?case
  proof (cases "radius_meters d > 10")
    case True
    then obtain c where "clean_cluster gc g d = Inr c"
      using clean_cluster_total[OF gc, of d g] Cons.prems by auto
    then show ?thesis using True cs by simp
  next
    case False
    then show ?thesis using cs by simp
  qed
qed

lemma pairwise_loop_nonneg:
  assumes "\<forall>a b x. gc a b = Inr x \<longrightarrow> 0 \<le> x" and "pairwise_loop gc ps acc = Inr r"
  shows "fst acc \<le> fst r \<and> snd r = snd acc + length ps"
  using assms(2)
proof (induction ps arbitrary: acc)
  case Nil
  then show ?case by simp
next
  case (Cons p ps)
  obtain a b where p: "p = (a, b)" by (cases p)
  from Cons.prems p obtain x where x: "gc a b = Inr x"
    and rest: "pairwise_loop gc ps (fst acc + x, snd acc + 1) = Inr r"
    by (auto simp: bind_Inr_iff)
  from assms(1) x have "0 \<le> x" by blast
  with Cons.IH[OF rest] show ?case by simp
qed

lemma mean_pairwise_distance_nonneg:
  assumes "\<forall>a b x. gc a b = Inr x \<longrightarrow> 0 \<le> x" and "calculate_mean_pairwise_distance gc mc = Inr m"
  shows "0 \<le> m \<and> (length mc < 2 \<longrightarrow> m = 0)"
proof (cases "length mc < 2")
  case True
  then show ?thesis using assms(2) by (simp add: calculate_mean_pairwise_distance_def)
next
  case False
  with assms(2) obtain r where r: "pairwise_loop gc (combinations2 mc) (0, 0) = Inr r"
    and m: "py_div (fst r) (real (snd r)) = Inr m"
    by (auto simp: calculate_mean_pairwise_distance_def bind_Inr_iff)
  from pairwise_loop_nonneg[OF assms(1) r] have "0 \<le> fst r" by simp
  with m False show ?thesis by (auto simp: py_div_def split: if_splits)
qed

lemma proximity_factor_range:
  assumes "\<forall>a b x. gc a b = Inr x \<longrightarrow> 0 \<le> x" and "calculate_proximity_factor gc mc = Inr p"
  shows "0 < p \<and> p \<le> 1"
proof -
  from assms(2) obtain m where m: "calculate_mean_pairwise_distance gc mc = Inr m"
    and p: "py_div 1 (1 + m) = Inr p"
    by (auto simp: calculate_proximity_factor_def bind_Inr_iff)
  from mean_pairwise_distance_nonneg[OF assms(1) m] have "0 \<le> m" by simp
  with p show ?thesis by (auto simp: py_div_def split: if_splits)
qed

lemma proximity_factor_few:
  "length mc < 2 \<Longrightarrow> calculate_mean_pairwise_distance gc mc = Inr 0 \<and> calculate_proximity_factor gc mc = Inr 1"
  by (simp add: calculate_proximity_factor_def calculate_mean_pairwise_distance_def py_div_def)

lemma member_coordinates_Inr:
  assumes "traverse (\<lambda>member_id.
                 bind (vs_attr g latitude member_id) (\<lambda>la.
                 bind (vs_attr g longitude member_id) (\<lambda>lo. Inr (la, lo)))) ms = Inr mc"
  shows "mc = map (\<lambda>m. (latitude g ! m, longitude g ! m)) ms"
proof (rule nth_equalityI)
  from traverse_Inr[OF assms] have len: "length mc = length ms"
    and each: "\<forall>i < length ms. bind (vs_attr g latitude (ms ! i)) (\<lambda>la.
                 bind (vs_attr g longitude (ms ! i)) (\<lambda>lo. Inr (la, lo))) = Inr (mc ! i)"
    by simp_all
  show "length mc = length (map (\<lambda>m. (latitude g ! m, longitude g ! m)) ms)" using len by simp
  fix i assume "i < length mc"
  then have i: "i < length ms" using len by simp
  from each i have "bind (vs_attr g latitude (ms ! i)) (\<lambda>la.
                 bind (vs_attr g longitude (ms ! i)) (\<lambda>lo. Inr (la, lo))) = Inr (mc ! i)"
    by blast
  then have "mc ! i = (latitude g ! (ms ! i), longitude g ! (ms ! i))"
    by (auto simp: bind_Inr_iff vs_attr_def split: if_splits)
  then show "mc ! i = map (\<lambda>m. (latitude g ! m, longitude g ! m)) ms ! i" using i by simp
qed

lemma clean_cluster_score:
  assumes "clean_cluster gc g d = Inr c"
  shows "\<exists>p dv. calculate_proximity_factor gc (map (\<lambda>m. (latitude g ! m, longitude g ! m)) (members d)) = Inr p
           \<and> calculate_diversity_index (feature_counts d) = Inr dv
           \<and> accessibility_score c = py_round (p + dv) 4"
proof (cases "traverse (\<lambda>member_id.
                 bind (vs_attr g latitude member_id) (\<lambda>la.
                 bind (vs_attr g longitude member_id) (\<lambda>lo. Inr (la, lo)))) (members d)")
  case (Inl e)
  then show ?thesis using assms by (simp add: clean_cluster_def Let_def)
next
  case mc: (Inr mc)
  note mc' = member_coordinates_Inr[OF mc]
  show ?thesis
  proof (cases "calculate_proximity_factor gc mc")
    case (Inl e)
    then show ?thesis using assms mc by (simp add: clean_cluster_def Let_def)
  next
    case p: (Inr p)
    show ?thesis
    proof (cases "calculate_diversity_index (feature_counts d)")
      case (Inl e)
      then show ?thesis using assms mc p by (simp add: clean_cluster_def Let_def)
    next
      case dv: (Inr dv)
      show ?thesis
      proof (cases "subgraph g (members d)")
        case (Inl e)
        then show ?thesis using assms mc p dv by (simp add: clean_cluster_def Let_def)
      next
        case sg: (Inr sg)
        show ?thesis
        proof (cases "calculate_average_degree sg")
          case (Inl e)
          then show ?thesis using assms mc p dv sg by (simp add: clean_cluster_def Let_def)
        next
          case ad: (Inr ad)
          show ?thesis
          proof (cases "calculate_radius gc (py_round (fst (centroid d)) 6, py_round (snd (centroid d)) 6) mc")
            case (Inl e)
            then show ?thesis using assms mc p dv sg ad by (simp add: clean_cluster_def Let_def)
          next
            case rad: (Inr rad)
            from assms mc p dv sg ad rad
            have "accessibility_score c = py_round (p + dv) 4"
              by (auto simp: clean_cluster_def Let_def)
            with p dv mc' show ?thesis by auto
          qed
        qed
      qed
    qed
  qed
qed

text \<open>
  C10. Whenever the library distance never returns a negative number and no feature count
  of the cluster is negative: a mean pairwise distance that is returned is at least 0, and
  it is 0, with proximity factor 1, for fewer than two members; a proximity factor that is
  returned lies in (0, 1], and it is returned when the distance is for the member
  coordinates; the diversity index is returned and lies in [0, 1]. Whenever the body of the
  first pass returns a record for the cluster, the raw score it has computed from the
  member coordinates and the feature counts, the sum of the two, lies in (0, 2], and the
  score it stores in the record is that sum rounded to four places and lies in [0, 2]. The
  body does return when the distance is total and the members are vertices with coordinates.
\<close>

theorem raw_score_bounds:
  assumes nonneg: "\<forall>a b x. gc a b = Inr x \<longrightarrow> 0 \<le> x"
    and counts: "\<forall>kv \<in> set (feature_counts d). 0 \<le> snd kv"
  shows "(\<forall>mc m. calculate_mean_pairwise_distance gc mc = Inr m \<longrightarrow> 0 \<le> m \<and> (length mc < 2 \<longrightarrow> m = 0))
         \<and> (\<forall>mc. length mc < 2 \<longrightarrow>
               calculate_mean_pairwise_distance gc mc = Inr 0 \<and> calculate_proximity_factor gc mc = Inr 1)
         \<and> (\<forall>mc p. calculate_proximity_factor gc mc = Inr p \<longrightarrow> 0 < p \<and> p \<le> 1)
         \<and> (\<forall>mc. (\<forall>a \<in> set mc. \<forall>b \<in> set mc. \<exists>x. gc a b = Inr x) \<longrightarrow>
               (\<exists>p. calculate_proximity_factor gc mc = Inr p))
         \<and> (\<exists>dv. calculate_diversity_index (feature_counts d) = Inr dv \<and> 0 \<le> dv \<and> dv \<le> 1)
         \<and> (\<forall>c. clean_cluster gc g d = Inr c \<longrightarrow>
               (\<exists>p dv. calculate_proximity_factor gc
                          (map (\<lambda>m. (latitude g ! m, longitude g ! m)) (members d)) = Inr p
                  \<and> calculate_diversity_index (feature_counts d) = Inr dv
                  \<and> 0 < p \<and> p \<le> 1 \<and> 0 \<le> dv \<and> dv \<le> 1 \<and> 0 < p + dv \<and> p + dv \<le> 2
                  \<and> accessibility_score c = py_round (p + dv) 4
                  \<and> 0 \<le> accessibility_score c \<and> accessibility_score c \<le> 2))
         \<and> ((\<forall>a b. \<exists>x. gc a b = Inr x)
              \<and> (\<forall>m \<in> set (members d). m < vcount g \<and> m < length (latitude g) \<and> m < length (longitude g))
             \<longrightarrow> (\<exists>c. clean_cluster gc g d = Inr c))"
proof -
  have c1: "\<forall>mc m. calculate_mean_pairwise_distance gc mc = Inr m \<longrightarrow> 0 \<le> m \<and> (length mc < 2 \<longrightarrow> m = 0)"
    using mean_pairwise_distance_nonneg[OF nonneg] by blast
  have c2: "\<forall>mc. length mc < 2 \<longrightarrow>
               calculate_mean_pairwise_distance gc mc = Inr 0 \<and> calculate_proximity_factor gc mc = Inr 1"
    using proximity_factor_few by blast
  have c3: "\<forall>mc p. calculate_proximity_factor gc mc = Inr p \<longrightarrow> 0 < p \<and> p \<le> 1"
    using proximity_factor_range[OF nonneg] by blast
  have c4: "\<forall>mc. (\<forall>a \<in> set mc. \<forall>b \<in> set mc. \<exists>x. gc a b = Inr x) \<longrightarrow>
               (\<exists>p. calculate_proximity_factor gc mc = Inr p)"
  proof (intro allI impI)
    fix mc assume t: "\<forall>a \<in> set mc. \<forall>b \<in> set mc. \<exists>x. gc a b = Inr x"
    have "\<forall>a \<in> set mc. \<forall>b \<in> set mc. \<exists>x. gc a b = Inr x \<and> 0 \<le> x"
      using t nonneg by blast
    from proximity_factor_total[OF this] show "\<exists>p. calculate_proximity_factor gc mc = Inr p"
      by blast
  qed
  obtain dv where dv: "calculate_diversity_index (feature_counts d) = Inr dv"
    using diversity_index_total by blast
  from diversity_index_range[OF counts dv] have dvr: "0 \<le> dv" "dv \<le> 1" by simp_all
  have c5: "\<exists>dv. calculate_diversity_index (feature_counts d) = Inr dv \<and> 0 \<le> dv \<and> dv \<le> 1"
    using dv dvr by blast
  have c6: "\<forall>c. clean_cluster gc g d = Inr c \<longrightarrow>
               (\<exists>p dv. calculate_proximity_factor gc
                          (map (\<lambda>m. (latitude g ! m, longitude g ! m)) (members d)) = Inr p
                  \<and> calculate_diversity_index (feature_counts d) = Inr dv
                  \<and> 0 < p \<and> p \<le> 1 \<and> 0 \<le> dv \<and> dv \<le> 1 \<and> 0 < p + dv \<and> p + dv \<le> 2
                  \<and> accessibility_score c = py_round (p + dv) 4
                  \<and> 0 \<le> accessibility_score c \<and> accessibility_score c \<le> 2)"
  proof (intro allI impI)
    fix c assume c: "clean_cluster gc g d = Inr c"
    from clean_cluster_score[OF c] dv obtain p where
      p: "calculate_proximity_factor gc (map (\<lambda>m. (latitude g ! m, longitude g ! m)) (members d)) = Inr p"
      and sc: "accessibility_score c = py_round (p + dv) 4"
      by auto
    from proximity_factor_range[OF nonneg p] have pr: "0 < p" "p \<le> 1" by simp_all
    have s: "0 < p + dv" "p + dv \<le> 2" using pr dvr by linarith+
    have "py_round 0 4 \<le> py_round (p + dv) 4"
      using s by (intro py_round_mono) simp
    then have r0: "0 \<le> accessibility_score c" by (simp add: py_round_0 sc)
    have "py_round (p + dv) 4 \<le> py_round (of_int 2) 4"
      using s by (intro py_round_mono) simp
    then have "py_round (p + dv) 4 \<le> 2" by (simp only: py_round_of_int)
    then have r2: "accessibility_score c \<le> 2" by (simp add: sc)
    show "\<exists>p dv. calculate_proximity_factor gc
                          (map (\<lambda>m. (latitude g ! m, longitude g ! m)) (members d)) = Inr p
                  \<and> calculate_diversity_index (feature_counts d) = Inr dv
                  \<and> 0 < p \<and> p \<le> 1 \<and> 0 \<le> dv \<and> dv \<le> 1 \<and> 0 < p + dv \<and> p + dv \<le> 2
                  \<and> accessibility_score c = py_round (p + dv) 4
                  \<and> 0 \<le> accessibility_score c \<and> accessibility_score c \<le> 2"
      by (rule exI[where x = p], rule exI[where x = dv])
        (intro conjI p dv pr dvr s sc r0 r2)
  qed
  have c7: "(\<forall>a b. \<exists>x. gc a b = Inr x)
              \<and> (\<forall>m \<in> set (members d). m < vcount g \<and> m < length (latitude g) \<and> m < length (longitude g))
             \<longrightarrow> (\<exists>c. clean_cluster gc g d = Inr c)"
  proof
    assume a: "(\<forall>a b. \<exists>x. gc a b = Inr x)
              \<and> (\<forall>m \<in> set (members d). m < vcount g \<and> m < length (latitude g) \<and> m < length (longitude g))"
    then have "\<forall>a b. \<exists>x. gc a b = Inr x \<and> 0 \<le> x" using nonneg by blast
    from clean_cluster_total[OF this] a show "\<exists>c. clean_cluster gc g d = Inr c" by blast
  qed
  from c1 c2 c3 c4 c5 c6 c7 show ?thesis by (intro conjI)
qed

theorem raw_score_bounds_witness:
  "(\<forall>a b. \<exists>x. grid_distance a b = Inr x \<and> 0 \<le> x)
   \<and> list_all (\<lambda>kv. 0 \<le> snd kv) (feature_counts (example_cluster 1 25))
   \<and> list_all (\<lambda>m. m < vcount example_graph \<and> m < length (latitude example_graph)
        \<and> m < length (longitude example_graph)) (members (example_cluster 1 25))
   \<and> calculate_proximity_factor grid_distance [(0, 0), (0, 1)] = Inr (1 / 112)
   \<and> calculate_diversity_index (feature_counts (example_cluster 1 25)) = Inr 1
   \<and> (\<exists>c. clean_cluster grid_distance example_graph (example_cluster 1 25) = Inr c
         \<and> accessibility_score c = py_round (1 / 112 + 1) 4
         \<and> 0 \<le> accessibility_score c \<and> accessibility_score c \<le> 2)"
proof -
  have g: "\<forall>a b. \<exists>x. grid_distance a b = Inr x \<and> 0 \<le> x" by (simp add: grid_distance_def)
  have h1: "\<forall>a b x. grid_distance a b = Inr x \<longrightarrow> 0 \<le> x" by (auto simp: grid_distance_def)
  have h2: "\<forall>kv \<in> set (feature_counts (example_cluster 1 25)). 0 \<le> snd kv"
    by (simp add: example_cluster_def)
  have h3: "\<forall>m \<in> set (members (example_cluster 1 25)). m < vcount example_graph
      \<and> m < length (latitude example_graph) \<and> m < length (longitude example_graph)"
    by (simp add: example_cluster_def example_graph_def)
  have tot: "\<forall>a b. \<exists>x. grid_distance a b = Inr x" by (simp add: grid_distance_def)
  have mc: "map (\<lambda>m. (latitude example_graph ! m, longitude example_graph ! m)) (members (example_cluster 1 25))
      = [(0, 0), (0, 1)]"
    by (simp add: example_cluster_def example_graph_def)
  have e1: "calculate_proximity_factor grid_distance [(0, 0), (0, 1)] = Inr (1 / 112)"
    by (simp add: calculate_proximity_factor_def calculate_mean_pairwise_distance_def
        grid_distance_def py_div_def)
  have e2: "calculate_diversity_index (feature_counts (example_cluster 1 25)) = Inr 1"
    by (simp add: calculate_diversity_index_def py_div_def example_cluster_def)
  note t = raw_score_bounds[OF h1 h2, of example_graph]
  note t6 = t[THEN conjunct2, THEN conjunct2, THEN conjunct2, THEN conjunct2, THEN conjunct2,
      THEN conjunct1]
  note t7 = t[THEN conjunct2, THEN conjunct2, THEN conjunct2, THEN conjunct2, THEN conjunct2,
      THEN conjunct2]
  from t7 tot h3 obtain c where c: "clean_cluster grid_distance example_graph (example_cluster 1 25) = Inr c"
    by blast
  with t6 obtain p dv where
    pf: "calculate_proximity_factor grid_distance
        (map (\<lambda>m. (latitude example_graph ! m, longitude example_graph ! m)) (members (example_cluster 1 25))) = Inr p"
    and df: "calculate_diversity_index (feature_counts (example_cluster 1 25)) = Inr dv"
    and sc0: "accessibility_score c = py_round (p + dv) 4"
    and b: "0 \<le> accessibility_score c" "accessibility_score c \<le> 2"
    by blast
  from pf[unfolded mc e1] have p: "p = 1 / 112" by simp
  from df[unfolded e2] have dv: "dv = 1" by simp
  have sc: "accessibility_score c = py_round (1 / 112 + 1) 4"
    unfolding sc0 p dv ..
  have e: "\<exists>c. clean_cluster grid_distance example_graph (example_cluster 1 25) = Inr c
         \<and> accessibility_score c = py_round (1 / 112 + 1) 4
         \<and> 0 \<le> accessibility_score c \<and> accessibility_score c \<le> 2"
    by (rule exI[where x = c]) (intro conjI c sc b)
  have l2: "list_all (\<lambda>kv. 0 \<le> snd kv) (feature_counts (example_cluster 1 25))"
    using h2 by (simp add: list_all_iff)
  have l3: "list_all (\<lambda>m. m < vcount example_graph \<and> m < length (latitude example_graph)
        \<and> m < length (longitude example_graph)) (members (example_cluster 1 25))"
    using h3 by (simp add: list_all_iff)
  from g l2 l3 e1 e2 e show ?thesis by (intro conjI)
qed

text \<open>
  C7. The script gives the same result on the loaded clusters as on those of them whose
  radius is above 10 metres: a cluster of radius 10 or less enters neither the scores nor
  the normalization. Whenever the script returns, the ids of its output, in order, are
  those of the clusters with radius above 10. It does return when the library distance is
  total and non-negative, the members of the clusters above 10 metres are vertices of the
  graph that carry coordinates, and at least one cluster is above 10 metres.
\<close>

theorem radius_filter:
  "clean_cluster_data gc g data = clean_cluster_data gc g (filter (\<lambda>d. radius_meters d > 10) data)
   \<and> (\<forall>out. clean_cluster_data gc g data = Inr out \<longrightarrow>
         map cid out = map cluster_id (filter (\<lambda>d. radius_meters d > 10) data))
   \<and> ((\<forall>a b. \<exists>d. gc a b = Inr d \<and> 0 \<le> d)
        \<and> (\<forall>d \<in> set data. radius_meters d > 10 \<longrightarrow>
              (\<forall>m \<in> set (members d). m < vcount g \<and> m < length (latitude g) \<and> m < length (longitude g)))
        \<and> (\<exists>d \<in> set data. radius_meters d > 10)
       \<longrightarrow> (\<exists>out. clean_cluster_data gc g data = Inr out))"
proof (intro conjI allI impI)
  show "clean_cluster_data gc g data = clean_cluster_data gc g (filter (\<lambda>d. radius_meters d > 10) data)"
    unfolding clean_cluster_data_def using first_pass_filter[of gc g data] by simp
next
  fix out
  assume "clean_cluster_data gc g data = Inr out"
  then obtain cs where cs: "first_pass gc g data = Inr cs" "normalize cs = Inr out"
    by (auto simp: clean_cluster_data_def bind_Inr_iff)
  from normalize_ids[OF cs(2)] first_pass_ids[OF cs(1)]
  show "map cid out = map cluster_id (filter (\<lambda>d. radius_meters d > 10) data)" by simp
next
  assume a: "(\<forall>a b. \<exists>d. gc a b = Inr d \<and> 0 \<le> d)
        \<and> (\<forall>d \<in> set data. radius_meters d > 10 \<longrightarrow>
              (\<forall>m \<in> set (members d). m < vcount g \<and> m < length (latitude g) \<and> m < length (longitude g)))
        \<and> (\<exists>d \<in> set data. radius_meters d > 10)"
  then obtain cs where cs: "first_pass gc g data = Inr cs"
    using first_pass_total[of gc data g] by blast
  have "cs \<noteq> []" using first_pass_nonempty[OF cs] a by blast
  then obtain out where "normalize cs = Inr out" using normalize_total by blast
  then show "\<exists>out. clean_cluster_data gc g data = Inr out"
    by (simp add: clean_cluster_data_def cs)
qed

theorem radius_filter_witness:
  "(\<forall>a b. \<exists>d. grid_distance a b = Inr d \<and> 0 \<le> d)
   \<and> list_all (\<lambda>d. radius_meters d > 10 \<longrightarrow>
           list_all (\<lambda>m. m < vcount example_graph \<and> m < length (latitude example_graph)
              \<and> m < length (longitude example_graph)) (members d))
         [example_cluster 1 10, example_cluster 2 5, example_cluster 3 25]
   \<and> (\<exists>d \<in> set [example_cluster 1 10, example_cluster 2 5, example_cluster 3 25]. radius_meters d > 10)
   \<and> (\<exists>out. clean_cluster_data grid_distance example_graph
                [example_cluster 1 10, example_cluster 2 5, example_cluster 3 25] = Inr out
          \<and> map cid out = [3])"
proof -
  let ?data = "[example_cluster 1 10, example_cluster 2 5, example_cluster 3 25]"
  have h1: "\<forall>a b. \<exists>d. grid_distance a b = Inr d \<and> 0 \<le> d"
    by (simp add: grid_distance_def)
  have h2: "\<forall>d \<in> set ?data. radius_meters d > 10 \<longrightarrow>
           (\<forall>m \<in> set (members d). m < vcount example_graph \<and> m < length (latitude example_graph)
              \<and> m < length (longitude example_graph))"
    by (simp add: example_cluster_def example_graph_def)
  have h3: "\<exists>d \<in> set ?data. radius_meters d > 10"
    by (simp add: example_cluster_def)
  have f: "map cluster_id (filter (\<lambda>d. radius_meters d > 10) ?data) = [3]"
    by (simp add: example_cluster_def)
  from radius_filter[of grid_distance example_graph ?data] h1 h2 h3
  obtain out where out: "clean_cluster_data grid_distance example_graph ?data = Inr out"
    by blast
  with radius_filter[of grid_distance example_graph ?data]
  have "map cid out = map cluster_id (filter (\<lambda>d. radius_meters d > 10) ?data)" by blast
  with f have ids: "map cid out = [3]" by simp
  have h2': "list_all (\<lambda>d. radius_meters d > 10 \<longrightarrow>
           list_all (\<lambda>m. m < vcount example_graph \<and> m < length (latitude example_graph)
              \<and> m < length (longitude example_graph)) (members d)) ?data"
    using h2 by (simp add: list_all_iff)
  have e: "\<exists>out. clean_cluster_data grid_distance example_graph ?data = Inr out \<and> map cid out = [3]"
    by (rule exI[where x = out]) (rule conjI[OF out ids])
  show ?thesis
    using h1 h2' h3 e apply (intro conjI)
       apply assumption+
    done
qed


section \<open>Properties of analysis.py\<close>

lemma increment_keys: "map fst (increment fc k) = map fst fc"
  by (induction fc) (auto simp: increment_def)

lemma increment_nonneg: "\<forall>kv \<in> set fc. 0 \<le> snd kv \<Longrightarrow> \<forall>kv \<in> set (increment fc k). 0 \<le> snd kv"
  by (induction fc) (auto simp: increment_def)

lemma increment_absent: "k \<notin> fst ` set fc \<Longrightarrow> increment fc k = fc"
  by (induction fc) (auto simp: increment_def)

lemma increment_sum:
  "distinct (map fst fc) \<Longrightarrow> k \<in> fst ` set fc \<Longrightarrow>
     sum_list (map snd (increment fc k)) = sum_list (map snd fc) + 1"
proof (induction fc)
  case Nil
  then show ?case by simp
next
  case (Cons kv fc)
  obtain k' v where kv: "kv = (k', v)" by (cases kv)
  show ?case
  proof (cases "k' = k")
    case True
    then have "k \<notin> fst ` set fc" using Cons.prems kv by auto
    then have "increment fc k = fc" by (rule increment_absent)
    then show ?thesis using True kv by (simp add: increment_def)
  next
    case False
    then have "k \<in> fst ` set fc" using Cons.prems kv by auto
    moreover have "distinct (map fst fc)" using Cons.prems by simp
    ultimately have "sum_list (map snd (increment fc k)) = sum_list (map snd fc) + 1"
      by (rule Cons.IH[rotated])
    then show ?thesis using False kv by (simp add: increment_def)
  qed
qed

lemma count_features_result:
  assumes "count_features g fc idxs = Inr fc'" "distinct (map fst fc)" "\<forall>kv \<in> set fc. 0 \<le> snd kv"
  shows "map fst fc' = map fst fc \<and> (\<forall>kv \<in> set fc'. 0 \<le> snd kv)
         \<and> sum_list (map snd fc') =
             sum_list (map snd fc) + int (length (filter (\<lambda>i. feature_type g ! i \<in> set (map fst fc)) idxs))"
  using assms
proof (induction idxs arbitrary: fc)
  case Nil
  then show ?case by simp
next
  case (Cons idx rest)
  from Cons.prems(1) obtain ft where ft: "vs_attr g feature_type idx = Inr ft"
    and rec: "count_features g (if ft \<in> fst ` set fc then increment fc ft else fc) rest = Inr fc'"
    by (auto simp: bind_Inr_iff)
  have ftv: "ft = feature_type g ! idx" using ft by (auto simp: vs_attr_def split: if_splits)
  let ?fc = "if ft \<in> fst ` set fc then increment fc ft else fc"
  have keys: "map fst ?fc = map fst fc" by (simp add: increment_keys)
  have d: "distinct (map fst ?fc)" using Cons.prems(2) keys by simp
  have n: "\<forall>kv \<in> set ?fc. 0 \<le> snd kv" using Cons.prems(3) increment_nonneg[of fc ft] by simp
  have s: "sum_list (map snd ?fc) = sum_list (map snd fc) + (if ft \<in> fst ` set fc then 1 else 0)"
    using increment_sum[OF Cons.prems(2), of ft] by simp
  note IH = Cons.IH[OF rec d n, unfolded keys]
  show ?case using IH s ftv by simp
qed

lemma count_features_exact:
  assumes "count_features g fc idxs = Inr fc'"
  shows "fc' = map (\<lambda>kv. (fst kv, snd kv + int (length (filter (\<lambda>i. feature_type g ! i = fst kv) idxs)))) fc"
  using assms
proof (induction idxs arbitrary: fc)
  case Nil
  then show ?case by simp
next
  case (Cons idx rest)
  from Cons.prems obtain ft where ft: "vs_attr g feature_type idx = Inr ft"
    and rec: "count_features g (if ft \<in> fst ` set fc then increment fc ft else fc) rest = Inr fc'"
    by (auto simp: bind_Inr_iff)
  have ftv: "ft = feature_type g ! idx" using ft by (auto simp: vs_attr_def split: if_splits)
  have "(if ft \<in> fst ` set fc then increment fc ft else fc) = increment fc ft"
    by (simp add: increment_absent)
  with rec have "count_features g (increment fc ft) rest = Inr fc'" by simp
  from Cons.IH[OF this] show ?case
    by (auto simp: increment_def ftv split_beta)
qed

lemma distinct_feature_types: "distinct feature_types"
  by (simp add: feature_types_def)

lemma length_feature_types: "length feature_types = 12"
  by (simp add: feature_types_def)

lemma calculate_cluster_metrics_counts:
  assumes "calculate_cluster_metrics gc coordinates g cluster_indices = Inr (c, r, fc)"
  shows "map fst fc = feature_types \<and> (\<forall>kv \<in> set fc. 0 \<le> snd kv)
         \<and> sum_list (map snd fc) =
             int (length (filter (\<lambda>i. feature_type g ! i \<in> set feature_types) cluster_indices))"
proof -
  from assms have cf: "count_features g (map (\<lambda>feature. (feature, 0)) feature_types) cluster_indices = Inr fc"
    by (auto simp: calculate_cluster_metrics_def Let_def bind_Inr_iff)
  have k: "map fst (map (\<lambda>feature. (feature, 0 :: int)) feature_types) = feature_types"
    by (simp add: comp_def)
  have z: "sum_list (map snd (map (\<lambda>feature. (feature, 0 :: int)) feature_types)) = 0"
    by (simp add: comp_def)
  from count_features_result[OF cf] k z distinct_feature_types show ?thesis by simp
qed

lemma calculate_cluster_metrics_exact:
  assumes "calculate_cluster_metrics gc coordinates g cluster_indices = Inr (c, r, fc)"
  shows "fc = map (\<lambda>k. (k, int (length (filter (\<lambda>i. feature_type g ! i = k) cluster_indices)))) feature_types"
proof -
  from assms have cf: "count_features g (map (\<lambda>feature. (feature, 0)) feature_types) cluster_indices = Inr fc"
    by (auto simp: calculate_cluster_metrics_def Let_def bind_Inr_iff)
  from count_features_exact[OF cf] show ?thesis by (simp add: comp_def)
qed

lemma cluster_record_result:
  assumes "cluster_record gc metrics coordinates g (i, cluster) = Inr r"
  shows "cluster_id r = i + 1 \<and> members r = cluster
         \<and> (\<exists>c rad. calculate_cluster_metrics gc coordinates g cluster = Inr (c, rad, feature_counts r))"
proof (cases "calculate_cluster_metrics gc coordinates g cluster")
  case (Inl e)
  then show ?thesis using assms by (simp add: cluster_record_def)
next
  case (Inr res)
  obtain c rad fc where res: "res = (c, rad, fc)" by (cases res)
  show ?thesis
  proof (cases "subgraph g cluster")
    case (Inl e)
    then show ?thesis using assms Inr res by (simp add: cluster_record_def)
  next
    case sg: (Inr sg)
    from assms Inr res sg
    have "cluster_id r = i + 1 \<and> members r = cluster \<and> feature_counts r = fc"
      by (auto simp: cluster_record_def Let_def)
    then show ?thesis using Inr res by simp
  qed
qed

lemma analysis_result:
  assumes "analysis gc mds cm metrics g = Inr out"
  shows "length out = length (clusters_of (cm g))
         \<and> (\<forall>i < length out. \<exists>coordinates.
               cluster_record gc metrics coordinates g (i, clusters_of (cm g) ! i) = Inr (out ! i))"
proof -
  from assms obtain coordinates where
    t: "traverse (cluster_record gc metrics coordinates g) (enumerate 0 (clusters_of (cm g))) = Inr out"
    by (auto simp: analysis_def Let_def bind_Inr_iff)
  from traverse_Inr[OF t] show ?thesis by (auto simp: nth_enumerate_eq)
qed

lemma analysis_record:
  assumes "analysis gc mds cm metrics g = Inr out" "i < length out"
  shows "cluster_id (out ! i) = i + 1 \<and> members (out ! i) = clusters_of (cm g) ! i
         \<and> (\<exists>coordinates c rad.
               calculate_cluster_metrics gc coordinates g (members (out ! i))
                 = Inr (c, rad, feature_counts (out ! i)))"
proof -
  from analysis_result[OF assms(1)] assms(2) obtain coordinates where
    "cluster_record gc metrics coordinates g (i, clusters_of (cm g) ! i) = Inr (out ! i)"
    by blast
  from cluster_record_result[OF this] show ?thesis by auto
qed

lemma analysis_ids_members:
  assumes "analysis gc mds cm metrics g = Inr out"
  shows "map cluster_id out = [1..<Suc (length out)] \<and> map members out = clusters_of (cm g)"
proof -
  from analysis_result[OF assms] have len: "length out = length (clusters_of (cm g))"
    by simp
  have ids: "map cluster_id out = [1..<Suc (length out)]"
    by (rule nth_equalityI) (simp_all add: analysis_record[OF assms] nth_upt del: upt_Suc)
  have ms: "map members out = clusters_of (cm g)"
    by (rule nth_equalityI) (simp_all add: len analysis_record[OF assms])
  from ids ms show ?thesis by simp
qed

lemma length_clusters_of: "length (clusters_of m) = n_clusters m"
  by (simp add: clusters_of_def n_clusters_def)

lemma nth_clusters_of:
  "c < n_clusters m \<Longrightarrow> clusters_of m ! c = filter (\<lambda>v. m ! v = c) [0..<length m]"
  unfolding clusters_of_def n_clusters_def by (simp del: upt_Suc)

lemma coordinates_total:
  assumes "vcount g \<le> length (latitude g)" "vcount g \<le> length (longitude g)"
  shows "traverse (\<lambda>i. bind (vs_attr g latitude i) (\<lambda>la.
                          bind (vs_attr g longitude i) (\<lambda>lo. Inr (la, lo)))) [0..<vcount g]
         = Inr (map (\<lambda>i. (latitude g ! i, longitude g ! i)) [0..<vcount g])"
  by (rule traverse_total) (use assms in \<open>simp add: vs_attr_def\<close>)

lemma count_features_total:
  assumes "\<forall>i \<in> set idxs. i < vcount g \<and> i < length (feature_type g)"
  shows "\<exists>fc'. count_features g fc idxs = Inr fc'"
  using assms by (induction idxs arbitrary: fc) (auto simp: vs_attr_def)

lemma traverse_total_ex:
  assumes "\<forall>x \<in> set xs. \<exists>y. f x = Inr y"
  shows "\<exists>ys. traverse f xs = Inr ys \<and> length ys = length xs"
  using assms by (induction xs) auto

lemma calculate_cluster_metrics_total:
  assumes gc: "\<forall>a b. \<exists>d. gc a b = Inr d"
    and idx: "\<forall>i \<in> set cluster. i < length coordinates \<and> i < vcount g \<and> i < length (feature_type g)"
    and ne: "cluster \<noteq> []"
  shows "\<exists>res. calculate_cluster_metrics gc coordinates g cluster = Inr res"
proof -
  have c: "traverse (py_index coordinates) cluster = Inr (map (\<lambda>i. coordinates ! i) cluster)"
    by (rule traverse_total) (use idx in \<open>simp add: py_index_def\<close>)
  let ?cc = "map (\<lambda>i. coordinates ! i) cluster"
  let ?cen = "(np_mean (map fst ?cc), np_mean (map snd ?cc))"
  have "\<forall>x \<in> set ?cc. \<exists>y. gc ?cen x = Inr y" using gc by blast
  from traverse_total_ex[OF this] obtain ds where
    ds: "traverse (gc ?cen) ?cc = Inr ds" "length ds = length ?cc" by blast
  then have "ds \<noteq> []" using ne by auto
  then obtain mx where mx: "py_max ds = Inr mx" using py_max_nonempty by blast
  obtain fc where fc: "count_features g (map (\<lambda>feature. (feature, 0)) feature_types) cluster = Inr fc"
    using count_features_total[of cluster g] idx by blast
  have "calculate_cluster_metrics gc coordinates g cluster = Inr (?cen, mx, fc)"
    by (simp only: calculate_cluster_metrics_def Let_def c bind.simps ds mx fc)
  then show ?thesis by (rule exI)
qed

lemma cluster_record_total:
  assumes gc: "\<forall>a b. \<exists>d. gc a b = Inr d"
    and idx: "\<forall>i \<in> set cluster. i < length coordinates \<and> i < vcount g \<and> i < length (feature_type g)"
    and ne: "cluster \<noteq> []"
  shows "\<exists>r. cluster_record gc metrics coordinates g (i, cluster) = Inr r"
proof -
  from calculate_cluster_metrics_total[OF assms] obtain res where
    res: "calculate_cluster_metrics gc coordinates g cluster = Inr res" by blast
  obtain c rad fc where r: "res = (c, rad, fc)" by (cases res)
  obtain sg where sg: "subgraph g cluster = Inr sg"
    using idx by (auto simp: subgraph_def Let_def)
  show ?thesis by (simp add: cluster_record_def res r sg Let_def)
qed

lemma analysis_total:
  assumes gc: "\<forall>a b. \<exists>d. gc a b = Inr d"
    and attrs: "vcount g \<le> length (latitude g)" "vcount g \<le> length (longitude g)"
       "vcount g \<le> length (feature_type g)"
    and layout: "vcount g \<noteq> 0" "\<forall>cs. cs \<noteq> [] \<longrightarrow> (\<exists>l. mds cs = Inr l)"
    and len: "length (cm g) = vcount g"
    and dense: "[] \<notin> set (clusters_of (cm g))"
  shows "\<exists>out. analysis gc mds cm metrics g = Inr out"
proof -
  let ?coords = "map (\<lambda>i. (latitude g ! i, longitude g ! i)) [0..<vcount g]"
  have "\<exists>r. cluster_record gc metrics ?coords g ic = Inr r"
    if ic: "ic \<in> set (enumerate 0 (clusters_of (cm g)))" for ic
  proof -
    obtain i cl where p: "ic = (i, cl)" by (cases ic)
    from ic p have i: "i < n_clusters (cm g)" and cl: "cl = clusters_of (cm g) ! i"
      by (auto simp: in_set_enumerate_eq length_clusters_of)
    have cl': "cl = filter (\<lambda>v. cm g ! v = i) [0..<vcount g]"
      using cl nth_clusters_of[OF i] len by simp
    have "cl \<in> set (clusters_of (cm g))" using cl i by (simp add: length_clusters_of)
    then have ne: "cl \<noteq> []" using dense by auto
    have idx: "\<forall>j \<in> set cl. j < length ?coords \<and> j < vcount g \<and> j < length (feature_type g)"
      using cl' attrs by auto
    from cluster_record_total[OF gc idx ne] p show ?thesis by simp
  qed
  then have "\<forall>ic \<in> set (enumerate 0 (clusters_of (cm g))). \<exists>r. cluster_record gc metrics ?coords g ic = Inr r"
    by blast
  from traverse_total_ex[OF this] obtain out where
    "traverse (cluster_record gc metrics ?coords g) (enumerate 0 (clusters_of (cm g))) = Inr out"
    by blast
  moreover have ne: "?coords \<noteq> []" using layout(1) by simp
  from layout(2)[rule_format, OF ne] obtain l where "mds ?coords = Inr l" ..
  then have "fit_transform mds ?coords = Inr l" using ne by (simp only: fit_transform_def if_False)
  ultimately show ?thesis
    unfolding analysis_def Let_def by (simp add: coordinates_total[OF attrs(1,2)])
qed

lemma clusters_of_one: "clusters_of [0, 0, 0, 0] = [[0, 1, 2, 3]]"
  by (simp add: clusters_of_def upt_rec)

lemma analysis_quad_benches:
  "analysis grid_distance example_layout one_community example_metrics (quad_graph ''benches'')
   = Inr [quad_record 1 [0, 1, 2, 3] (1 / 2, 3 / 4) 194250 0]"
  by (simp add: analysis_def one_community_def clusters_of_def cluster_record_def
      calculate_cluster_metrics_def subgraph_def pick_attr_def example_metrics_def nan_to_0_def
      quad_graph_def vs_attr_def py_index_def np_mean_def grid_distance_def feature_types_def
      quad_record_def upt_rec Let_def fit_transform_def example_layout_def)

lemma analysis_quad_ramps:
  "analysis grid_distance example_layout one_community example_metrics (quad_graph ''ramps'')
   = Inr [quad_record 1 [0, 1, 2, 3] (1 / 2, 3 / 4) 194250 4]"
  by (simp add: analysis_def one_community_def clusters_of_def cluster_record_def
      calculate_cluster_metrics_def subgraph_def pick_attr_def example_metrics_def nan_to_0_def
      quad_graph_def vs_attr_def py_index_def np_mean_def grid_distance_def feature_types_def
      quad_record_def upt_rec Let_def fit_transform_def example_layout_def increment_def)

lemma analysis_empty_graph:
  "vcount g = 0 \<Longrightarrow> analysis gc mds cm metrics g = Inl ValueError"
  by (simp add: analysis_def fit_transform_def)

text \<open>
  C4. In every record \<^verbatim>\<open>analysis.py\<close> produces, the feature counts are the twelve categories
  of the enumeration, in its order, each with the number of members of the cluster whose
  feature type is that category. So the mapping has exactly the twelve keys, no count is
  negative, and a category that no member has is there with count 0. The sum of the counts
  is the number of members whose feature type is one of the twelve: a member of any other
  type is skipped by the test \<^verbatim>\<open>if feature_type in feature_counts\<close>. The sum never exceeds
  the member count and equals it when every member has a known type. The members of a
  record are one of the clusters of the clustering. The script returns its records when
  the library distance is total, the graph has a vertex, the vertices carry their three
  attributes, the layout is computed, the membership list has one entry per vertex and no
  cluster is empty.
\<close>

theorem feature_counts_of_records:
  "(\<forall>out. analysis gc mds cm metrics g = Inr out \<longrightarrow>
      (\<forall>r \<in> set out.
         members r \<in> set (clusters_of (cm g))
         \<and> feature_counts r =
             map (\<lambda>k. (k, int (length (filter (\<lambda>v. feature_type g ! v = k) (members r)))))
               feature_types
         \<and> map fst (feature_counts r) = feature_types
         \<and> length (feature_counts r) = 12
         \<and> (\<forall>kv \<in> set (feature_counts r). 0 \<le> snd kv)
         \<and> (\<forall>k \<in> set feature_types.
               (\<forall>v \<in> set (members r). feature_type g ! v \<noteq> k) \<longrightarrow> (k, 0) \<in> set (feature_counts r))
         \<and> sum_list (map snd (feature_counts r)) =
             int (length (filter (\<lambda>v. feature_type g ! v \<in> set feature_types) (members r)))
         \<and> sum_list (map snd (feature_counts r)) \<le> int (length (members r))
         \<and> ((\<forall>v \<in> set (members r). feature_type g ! v \<in> set feature_types) \<longrightarrow>
               sum_list (map snd (feature_counts r)) = int (length (members r)))))
   \<and> ((\<forall>a b. \<exists>d. gc a b = Inr d)
        \<and> vcount g \<noteq> 0
        \<and> vcount g \<le> length (latitude g) \<and> vcount g \<le> length (longitude g)
        \<and> vcount g \<le> length (feature_type g)
        \<and> (\<forall>cs. cs \<noteq> [] \<longrightarrow> (\<exists>l. mds cs = Inr l))
        \<and> length (cm g) = vcount g \<and> [] \<notin> set (clusters_of (cm g))
       \<longrightarrow> (\<exists>out. analysis gc mds cm metrics g = Inr out))"
proof (rule conjI)
  show "\<forall>out. analysis gc mds cm metrics g = Inr out \<longrightarrow>
      (\<forall>r \<in> set out.
         members r \<in> set (clusters_of (cm g))
         \<and> feature_counts r =
             map (\<lambda>k. (k, int (length (filter (\<lambda>v. feature_type g ! v = k) (members r)))))
               feature_types
         \<and> map fst (feature_counts r) = feature_types
         \<and> length (feature_counts r) = 12
         \<and> (\<forall>kv \<in> set (feature_counts r). 0 \<le> snd kv)
         \<and> (\<forall>k \<in> set feature_types.
               (\<forall>v \<in> set (members r). feature_type g ! v \<noteq> k) \<longrightarrow> (k, 0) \<in> set (feature_counts r))
         \<and> sum_list (map snd (feature_counts r)) =
             int (length (filter (\<lambda>v. feature_type g ! v \<in> set feature_types) (members r)))
         \<and> sum_list (map snd (feature_counts r)) \<le> int (length (members r))
         \<and> ((\<forall>v \<in> set (members r). feature_type g ! v \<in> set feature_types) \<longrightarrow>
               sum_list (map snd (feature_counts r)) = int (length (members r))))"
  proof (intro allI impI ballI)
    fix out r
    assume out: "analysis gc mds cm metrics g = Inr out" and r: "r \<in> set out"
    from r obtain i where i: "i < length out" "r = out ! i" by (auto simp: in_set_conv_nth)
    from analysis_record[OF out i(1)] i(2) obtain coordinates c rad where
      m: "calculate_cluster_metrics gc coordinates g (members r) = Inr (c, rad, feature_counts r)"
      by auto
    from analysis_ids_members[OF out] have "map members out = clusters_of (cm g)" by simp
    then have "set (clusters_of (cm g)) = members ` set out" by (metis set_map)
    then have cl: "members r \<in> set (clusters_of (cm g))" using r by simp
    note k = calculate_cluster_metrics_counts[OF m]
    note ex = calculate_cluster_metrics_exact[OF m]
    have keys: "map fst (feature_counts r) = feature_types" using k by simp
    have "length (map fst (feature_counts r)) = 12" unfolding keys by (rule length_feature_types)
    then have len: "length (feature_counts r) = 12" by simp
    have nn: "\<forall>kv \<in> set (feature_counts r). 0 \<le> snd kv" using k by simp
    have ab: "\<forall>k \<in> set feature_types.
               (\<forall>v \<in> set (members r). feature_type g ! v \<noteq> k) \<longrightarrow> (k, 0) \<in> set (feature_counts r)"
    proof (intro ballI impI)
      fix k assume kt: "k \<in> set feature_types"
        and no: "\<forall>v \<in> set (members r). feature_type g ! v \<noteq> k"
      from no have "filter (\<lambda>v. feature_type g ! v = k) (members r) = []"
        by (simp add: filter_empty_conv)
      then have "(k, 0) = (\<lambda>k. (k, int (length (filter (\<lambda>v. feature_type g ! v = k) (members r))))) k"
        by simp
      also have "\<dots> \<in> set (map (\<lambda>k. (k, int (length (filter (\<lambda>v. feature_type g ! v = k) (members r))))) feature_types)"
        using kt by (simp only: set_map) (rule imageI)
      finally show "(k, 0) \<in> set (feature_counts r)" using ex by simp
    qed
    have s: "sum_list (map snd (feature_counts r)) =
               int (length (filter (\<lambda>v. feature_type g ! v \<in> set feature_types) (members r)))"
      using k by simp
    have le: "sum_list (map snd (feature_counts r)) \<le> int (length (members r))"
      unfolding s by simp
    have eq: "(\<forall>v \<in> set (members r). feature_type g ! v \<in> set feature_types) \<longrightarrow>
                 sum_list (map snd (feature_counts r)) = int (length (members r))"
      unfolding s by simp
    from cl ex keys len nn ab s le eq
    show "members r \<in> set (clusters_of (cm g))
         \<and> feature_counts r =
             map (\<lambda>k. (k, int (length (filter (\<lambda>v. feature_type g ! v = k) (members r)))))
               feature_types
         \<and> map fst (feature_counts r) = feature_types
         \<and> length (feature_counts r) = 12
         \<and> (\<forall>kv \<in> set (feature_counts r). 0 \<le> snd kv)
         \<and> (\<forall>k \<in> set feature_types.
               (\<forall>v \<in> set (members r). feature_type g ! v \<noteq> k) \<longrightarrow> (k, 0) \<in> set (feature_counts r))
         \<and> sum_list (map snd (feature_counts r)) =
             int (length (filter (\<lambda>v. feature_type g ! v \<in> set feature_types) (members r)))
         \<and> sum_list (map snd (feature_counts r)) \<le> int (length (members r))
         \<and> ((\<forall>v \<in> set (members r). feature_type g ! v \<in> set feature_types) \<longrightarrow>
               sum_list (map snd (feature_counts r)) = int (length (members r)))"
      by (intro conjI)
  qed
next
  show "(\<forall>a b. \<exists>d. gc a b = Inr d)
        \<and> vcount g \<noteq> 0
        \<and> vcount g \<le> length (latitude g) \<and> vcount g \<le> length (longitude g)
        \<and> vcount g \<le> length (feature_type g)
        \<and> (\<forall>cs. cs \<noteq> [] \<longrightarrow> (\<exists>l. mds cs = Inr l))
        \<and> length (cm g) = vcount g \<and> [] \<notin> set (clusters_of (cm g))
       \<longrightarrow> (\<exists>out. analysis gc mds cm metrics g = Inr out)"
  proof
    assume h: "(\<forall>a b. \<exists>d. gc a b = Inr d)
        \<and> vcount g \<noteq> 0
        \<and> vcount g \<le> length (latitude g) \<and> vcount g \<le> length (longitude g)
        \<and> vcount g \<le> length (feature_type g)
        \<and> (\<forall>cs. cs \<noteq> [] \<longrightarrow> (\<exists>l. mds cs = Inr l))
        \<and> length (cm g) = vcount g \<and> [] \<notin> set (clusters_of (cm g))"
    show "\<exists>out. analysis gc mds cm metrics g = Inr out"
      by (rule analysis_total) (use h in simp_all)
  qed
qed

text \<open>
  The graph of the quadrilateral with the known feature \<open>ramps\<close>, all four vertices in one
  community: the script returns one record, with count 4 for \<open>ramps\<close> and count 0 for each
  of the other eleven categories.
\<close>

theorem feature_counts_of_records_witness:
  "(\<forall>a b. \<exists>d. grid_distance a b = Inr d)
   \<and> vcount (quad_graph ''ramps'') \<noteq> 0
   \<and> vcount (quad_graph ''ramps'') \<le> length (latitude (quad_graph ''ramps''))
   \<and> vcount (quad_graph ''ramps'') \<le> length (longitude (quad_graph ''ramps''))
   \<and> vcount (quad_graph ''ramps'') \<le> length (feature_type (quad_graph ''ramps''))
   \<and> (\<forall>cs. \<exists>l. example_layout cs = Inr l)
   \<and> length (one_community (quad_graph ''ramps'')) = vcount (quad_graph ''ramps'')
   \<and> [] \<notin> set (clusters_of (one_community (quad_graph ''ramps'')))
   \<and> (\<exists>out. analysis grid_distance example_layout one_community example_metrics (quad_graph ''ramps'')
              = Inr out
         \<and> out = [quad_record 1 [0, 1, 2, 3] (1 / 2, 3 / 4) 194250 4]
         \<and> list_all (\<lambda>r. list_all (\<lambda>v. feature_type (quad_graph ''ramps'') ! v \<in> set feature_types)
                           (members r)
                         \<and> length (members r) = 4
                         \<and> length (feature_counts r) = 12
                         \<and> (''ramps'', 4) \<in> set (feature_counts r)
                         \<and> (''elevators'', 0) \<in> set (feature_counts r)
                         \<and> sum_list (map snd (feature_counts r)) = 4) out)"
proof -
  let ?g = "quad_graph ''ramps''"
  let ?r = "quad_record 1 [0, 1, 2, 3] (1 / 2, 3 / 4) 194250 4"
  note t = feature_counts_of_records[of grid_distance example_layout one_community
      example_metrics ?g]
  have h1: "\<forall>a b. \<exists>d. grid_distance a b = Inr d" by (simp add: grid_distance_def)
  have h2: "vcount ?g \<noteq> 0" "vcount ?g \<le> length (latitude ?g)" "vcount ?g \<le> length (longitude ?g)"
    "vcount ?g \<le> length (feature_type ?g)" "length (one_community ?g) = vcount ?g"
    by (simp_all add: quad_graph_def one_community_def)
  have h3: "\<forall>cs. \<exists>l. example_layout cs = Inr l" by (simp add: example_layout_def)
  then have h3': "\<forall>cs. cs \<noteq> [] \<longrightarrow> (\<exists>l. example_layout cs = Inr l)" by simp
  have h4: "[] \<notin> set (clusters_of (one_community ?g))"
    unfolding one_community_def clusters_of_one by simp
  from t[THEN conjunct2] h1 h2 h3' h4 obtain out where
    out: "analysis grid_distance example_layout one_community example_metrics ?g = Inr out"
    by blast
  with analysis_quad_ramps have o: "out = [?r]" by simp
  have rin: "?r \<in> set out" unfolding o by simp
  note tr = t[THEN conjunct1, rule_format, OF out rin]
  have ms: "members ?r = [0, 1, 2, 3]" by (simp add: quad_record_def)
  have known: "\<forall>v \<in> set (members ?r). feature_type ?g ! v \<in> set feature_types"
    unfolding ms by (simp add: quad_graph_def feature_types_def)
  have len: "length (feature_counts ?r) = 12" using tr by blast
  have fc: "feature_counts ?r =
             map (\<lambda>k. (k, int (length (filter (\<lambda>v. feature_type ?g ! v = k) (members ?r)))))
               feature_types"
    using tr by blast
  have ramps: "(''ramps'', 4) \<in> set (feature_counts ?r)"
    unfolding fc ms by (simp add: feature_types_def quad_graph_def)
  have el: "''elevators'' \<in> set feature_types" by (simp add: feature_types_def)
  have "\<forall>v \<in> set (members ?r). feature_type ?g ! v \<noteq> ''elevators''"
    unfolding ms by (simp add: quad_graph_def)
  with tr el have elev: "(''elevators'', 0) \<in> set (feature_counts ?r)" by blast
  from tr known have "sum_list (map snd (feature_counts ?r)) = int (length (members ?r))"
    by blast
  then have s: "sum_list (map snd (feature_counts ?r)) = 4" unfolding ms by simp
  have la: "list_all (\<lambda>v. feature_type ?g ! v \<in> set feature_types) (members ?r)"
    using known by (simp add: list_all_iff)
  have l4: "length (members ?r) = 4" unfolding ms by simp
  have all: "list_all (\<lambda>r. list_all (\<lambda>v. feature_type ?g ! v \<in> set feature_types) (members r)
                         \<and> length (members r) = 4
                         \<and> length (feature_counts r) = 12
                         \<and> (''ramps'', 4) \<in> set (feature_counts r)
                         \<and> (''elevators'', 0) \<in> set (feature_counts r)
                         \<and> sum_list (map snd (feature_counts r)) = 4) out"
    unfolding o using la l4 len ramps elev s by simp
  have e: "\<exists>out. analysis grid_distance example_layout one_community example_metrics ?g = Inr out
         \<and> out = [?r]
         \<and> list_all (\<lambda>r. list_all (\<lambda>v. feature_type ?g ! v \<in> set feature_types) (members r)
                         \<and> length (members r) = 4
                         \<and> length (feature_counts r) = 12
                         \<and> (''ramps'', 4) \<in> set (feature_counts r)
                         \<and> (''elevators'', 0) \<in> set (feature_counts r)
                         \<and> sum_list (map snd (feature_counts r)) = 4) out"
    by (rule exI[where x = out]) (intro conjI out o all)
  show ?thesis
    using h1 h2 h3 h4 e apply (intro conjI)
            apply assumption+
    done
qed

text \<open>
  The four points of the quadrilateral with a feature name that is none of the twelve, all
  in one community: the cluster has four members and all its counts are 0.
\<close>

theorem feature_counts_sum_counterexample:
  "analysis grid_distance example_layout one_community example_metrics (quad_graph ''benches'')
     = Inr [quad_record 1 [0, 1, 2, 3] (1 / 2, 3 / 4) 194250 0]
   \<and> length (members (quad_record 1 [0, 1, 2, 3] (1 / 2, 3 / 4) 194250 0)) = 4
   \<and> sum_list (map snd (feature_counts (quad_record 1 [0, 1, 2, 3] (1 / 2, 3 / 4) 194250 0))) = 0
   \<and> sum_list (map snd (feature_counts (quad_record 1 [0, 1, 2, 3] (1 / 2, 3 / 4) 194250 0)))
       \<noteq> int (length (members (quad_record 1 [0, 1, 2, 3] (1 / 2, 3 / 4) 194250 0)))"
  using analysis_quad_benches by (simp add: quad_record_def comp_def)

section \<open>Properties of network_gen.py\<close>

lemma extract_quad: "extract_edges [(0, 1, 2), (0, 2, 3)] = [(0, 1), (1, 2), (2, 0), (0, 2), (2, 3), (3, 0)]"
  by (simp add: extract_edges_def set_add_def)

lemma network_gen_quad: "network_gen grid_distance quad_delaunay (quad_facilities f) = Inr (quad_graph f)"
  by (simp add: network_gen_def quad_facilities_def quad_delaunay_def quad_graph_def dist_matrix_def
      grid_distance_def extract_edges_def set_add_def add_vertices_def add_edges_def empty_graph_def
      Delaunay_def)

lemma quad_not_simple: "multiplicity (quad_graph f) 0 2 = 2 \<and> \<not> simple_graph (quad_graph f)"
  by (auto simp: multiplicity_def quad_graph_def simple_graph_def)

lemma ingest_inner_loop:
  "fold (\<lambda>item (coordinates, feature_types).
          (coordinates @ [(lat item, lon item)], feature_types @ [feature])) els (cs, fs)
   = (cs @ map (\<lambda>item. (lat item, lon item)) els, fs @ map (\<lambda>item. feature) els)"
  by (induction els arbitrary: cs fs) auto

lemma ingest_Elements:
  "ingest ((feature, Elements els) # rest) (cs, fs)
   = ingest rest (cs @ map (\<lambda>item. (lat item, lon item)) els, fs @ map (\<lambda>item. feature) els)"
  by (cases "els = []") (simp_all add: ingest_inner_loop)

lemma records_of_Cons:
  "records_of ((feature, Elements els) # rest)
   = map (\<lambda>item. ((lat item, lon item), feature)) els @ records_of rest"
  by (simp add: records_of_def)

lemma ingest_Inr:
  assumes "ingest data (cs0, fs0) = Inr (cs, fs)"
  shows "cs = cs0 @ map fst (records_of data) \<and> fs = fs0 @ map snd (records_of data)"
  using assms
proof (induction data arbitrary: cs0 fs0)
  case Nil
  then show ?case by (simp add: records_of_def)
next
  case (Cons fi data)
  obtain feature items where fi: "fi = (feature, items)" by (cases fi)
  show ?case
  proof (cases items)
    case Null
    then show ?thesis using Cons.prems fi by simp
  next
    case NoElements
    then show ?thesis using Cons.prems fi by simp
  next
    case (Elements els)
    from Cons.prems have "ingest data (cs0 @ map (\<lambda>item. (lat item, lon item)) els,
        fs0 @ map (\<lambda>item. feature) els) = Inr (cs, fs)"
      unfolding fi Elements ingest_Elements .
    from Cons.IH[OF this] show ?thesis
      unfolding fi Elements records_of_Cons by (simp add: comp_def)
  qed
qed

lemma ingest_all:
  assumes "\<forall>fi \<in> set data. \<exists>els. snd fi = Elements els"
  shows "ingest data (cs, fs) = Inr (cs @ map fst (records_of data), fs @ map snd (records_of data))"
  using assms
proof (induction data arbitrary: cs fs)
  case Nil
  then show ?case by (simp add: records_of_def)
next
  case (Cons fi data)
  obtain feature items where fi: "fi = (feature, items)" by (cases fi)
  from Cons.prems fi obtain els where els: "items = Elements els" by auto
  have rest: "\<forall>fi \<in> set data. \<exists>els. snd fi = Elements els" using Cons.prems by simp
  show ?case
    unfolding fi els ingest_Elements records_of_Cons Cons.IH[OF rest] by (simp add: comp_def)
qed

lemma ingest_stops:
  assumes "\<forall>fi \<in> set pre. \<exists>els. snd fi = Elements els"
  shows "ingest (pre @ (feature, Null) # post) acc = Inl TypeError
         \<and> ingest (pre @ (feature, NoElements) # post) acc = Inl KeyError"
  using assms
proof (induction pre arbitrary: acc)
  case Nil
  then show ?case by simp
next
  case (Cons fi pre)
  obtain f items where fi: "fi = (f, items)" by (cases fi)
  from Cons.prems fi obtain els where els: "items = Elements els" by auto
  have rest: "\<forall>fi \<in> set pre. \<exists>els. snd fi = Elements els" using Cons.prems by simp
  obtain cs fs where acc: "acc = (cs, fs)" by (cases acc)
  show ?case
    unfolding fi els acc append_Cons ingest_Elements using Cons.IH[OF rest] by simp
qed

lemma ingest_rename:
  "ingest (rename h data) (cs, map h fs)
   = map_sum id (\<lambda>(cs', fs'). (cs', map h fs')) (ingest data (cs, fs))"
proof (induction data arbitrary: cs fs)
  case Nil
  then show ?case by (simp add: rename_def)
next
  case (Cons fi data)
  obtain feature items where fi: "fi = (feature, items)" by (cases fi)
  show ?case
  proof (cases items)
    case Null
    then show ?thesis using fi by (simp add: rename_def)
  next
    case NoElements
    then show ?thesis using fi by (simp add: rename_def)
  next
    case (Elements els)
    have r: "rename h ((feature, Elements els) # data) = (h feature, Elements els) # rename h data"
      by (simp add: rename_def)
    have m: "map h fs @ map (\<lambda>item. h feature) els = map h (fs @ map (\<lambda>item. feature) els)"
      by (simp add: comp_def)
    show ?thesis
      unfolding fi Elements r ingest_Elements m by (rule Cons.IH)
  qed
qed

lemma network_gen_unfold:
  assumes "ingest data ([], []) = Inr (cs, fs)" "dist_matrix gc cs = Inr ds"
  shows "network_gen gc triangulate data =
     bind (Delaunay triangulate cs) (\<lambda>simplices.
       add_edges \<lparr>vcount = length cs, edges = [], feature_type = fs,
                  latitude = map fst cs, longitude = map snd cs\<rparr> (extract_edges simplices))"
  using assms by (simp add: network_gen_def Let_def add_vertices_def empty_graph_def)

lemma network_gen_dist_error:
  assumes "ingest data ([], []) = Inr (cs, fs)" "dist_matrix gc cs = Inl e"
  shows "network_gen gc triangulate data = Inl e"
  using assms by (simp add: network_gen_def Let_def)

lemma network_gen_Inr:
  assumes "network_gen gc triangulate data = Inr g"
  shows "\<exists>cs fs ds simplices. ingest data ([], []) = Inr (cs, fs) \<and> dist_matrix gc cs = Inr ds
           \<and> Delaunay triangulate cs = Inr simplices
           \<and> (\<forall>e \<in> set (extract_edges simplices). fst e < length cs \<and> snd e < length cs)
           \<and> g = \<lparr>vcount = length cs, edges = extract_edges simplices, feature_type = fs,
                  latitude = map fst cs, longitude = map snd cs\<rparr>"
proof -
  from assms obtain cs fs where i: "ingest data ([], []) = Inr (cs, fs)"
    by (cases "ingest data ([], [])") (auto simp: network_gen_def)
  from assms i obtain ds where d: "dist_matrix gc cs = Inr ds"
    by (cases "dist_matrix gc cs") (auto simp: network_gen_def Let_def)
  note u = network_gen_unfold[OF i d, of triangulate]
  from assms u obtain simplices where s: "Delaunay triangulate cs = Inr simplices"
    by (cases "Delaunay triangulate cs") auto
  from assms u s have "(\<forall>e \<in> set (extract_edges simplices). fst e < length cs \<and> snd e < length cs)
      \<and> g = \<lparr>vcount = length cs, edges = extract_edges simplices, feature_type = fs,
                  latitude = map fst cs, longitude = map snd cs\<rparr>"
    by (auto simp: add_edges_def split: if_splits)
  with i d s show ?thesis by blast
qed

lemma network_gen_returns:
  assumes "ingest data ([], []) = Inr (cs, fs)" "dist_matrix gc cs = Inr ds"
    and "Delaunay triangulate cs = Inr simplices"
    and "\<forall>e \<in> set (extract_edges simplices). fst e < length cs \<and> snd e < length cs"
  shows "network_gen gc triangulate data
         = Inr \<lparr>vcount = length cs, edges = extract_edges simplices, feature_type = fs,
                latitude = map fst cs, longitude = map snd cs\<rparr>"
  unfolding network_gen_unfold[OF assms(1,2)] assms(3) using assms(4)
  by (simp add: add_edges_def)

lemma network_gen_rename:
  "network_gen gc triangulate (rename h data)
   = map_sum id (\<lambda>g. g\<lparr>feature_type := map h (feature_type g)\<rparr>) (network_gen gc triangulate data)"
proof (cases "ingest data ([], [])")
  case (Inl e)
  with ingest_rename[of h data "[]" "[]"] have "ingest (rename h data) ([], []) = Inl e" by simp
  with Inl show ?thesis by (simp add: network_gen_def)
next
  case (Inr p)
  obtain cs fs where p: "p = (cs, fs)" by (cases p)
  from Inr p have i: "ingest data ([], []) = Inr (cs, fs)" by simp
  with ingest_rename[of h data "[]" "[]"]
  have i': "ingest (rename h data) ([], []) = Inr (cs, map h fs)" by simp
  show ?thesis
  proof (cases "dist_matrix gc cs")
    case (Inl e)
    show ?thesis
      unfolding network_gen_dist_error[OF i Inl] network_gen_dist_error[OF i' Inl] by simp
  next
    case d: (Inr ds)
    show ?thesis
      unfolding network_gen_unfold[OF i d] network_gen_unfold[OF i' d]
      by (cases "Delaunay triangulate cs") (simp_all add: add_edges_def)
  qed
qed

lemma distinct_set_add: "distinct s \<Longrightarrow> distinct (set_add s x)"
  by (simp add: set_add_def)

lemma distinct_extract_edges_aux:
  "distinct acc \<Longrightarrow> distinct (fold (\<lambda>(s0, s1, s2) edges.
             set_add (set_add (set_add edges (s0, s1)) (s1, s2)) (s2, s0)) simplices acc)"
  by (induction simplices arbitrary: acc) (auto simp: distinct_set_add split: prod.splits)

lemma distinct_extract_edges: "distinct (extract_edges simplices)"
  unfolding extract_edges_def by (rule distinct_extract_edges_aux) simp

lemma set_extract_edges_aux:
  "set (fold (\<lambda>(s0, s1, s2) edges.
             set_add (set_add (set_add edges (s0, s1)) (s1, s2)) (s2, s0)) simplices acc)
   = set acc \<union> (\<Union>s \<in> set simplices. case s of (s0, s1, s2) \<Rightarrow> {(s0, s1), (s1, s2), (s2, s0)})"
  by (induction simplices arbitrary: acc) (auto simp: set_add_def split: prod.splits)

lemma set_extract_edges:
  "set (extract_edges simplices)
   = (\<Union>s \<in> set simplices. case s of (s0, s1, s2) \<Rightarrow> {(s0, s1), (s1, s2), (s2, s0)})"
  unfolding extract_edges_def set_extract_edges_aux by simp

lemma ingest_quad:
  "ingest (quad_facilities f) ([], []) = Inr ([(0, 0), (1, 0), (1, 1), (0, 2)], [f, f, f, f])"
  by (simp add: quad_facilities_def)

lemma dist_matrix_quad:
  "dist_matrix grid_distance [(0, 0), (1, 0), (1, 1), (0, 2)] = Inr [111, 222, 222, 111, 333, 222]"
  by (simp add: dist_matrix_def grid_distance_def)

lemma ingest_two: "ingest two_facilities ([], []) = Inr ([(0, 0), (0, 1)], [''ramps'', ''ramps''])"
  by (simp add: two_facilities_def)

lemma dist_matrix_few: "length cs < 2 \<Longrightarrow> dist_matrix gc cs = Inr []"
proof -
  assume "length cs < 2"
  then have "cs = [] \<or> (\<exists>x. cs = [x])" by (cases cs) (auto simp: length_Suc_conv)
  then show ?thesis by (auto simp: dist_matrix_def)
qed

text \<open>
  C8. The script validates nothing. When every response has its list of elements, the
  ingestion loop returns one point for every element, in order, with the latitude, the
  longitude and the feature name exactly as given; the first response that is null stops
  the script with a TypeError and the first one without the list with a KeyError. The
  feature name is never inspected: with the features renamed in any way the script has the
  same outcome, up to the names the vertices carry, so a record of an unknown feature is
  accepted exactly when the same record of a known feature is. The coordinates are
  inspected by nothing but the library distance and the triangulation: when both return
  and the edges run between the points, the script returns the graph, and whenever it
  returns a graph, the vertices carry the latitude, the longitude and the feature name of
  the records unchanged.
\<close>

theorem ingest_accepts_every_record:
  "((\<forall>fi \<in> set data. \<exists>els. snd fi = Elements els) \<longrightarrow>
      ingest data ([], []) = Inr (map fst (records_of data), map snd (records_of data)))
   \<and> (\<forall>pre feature post. data = pre @ (feature, Null) # post
         \<and> (\<forall>fi \<in> set pre. \<exists>els. snd fi = Elements els)
        \<longrightarrow> ingest data ([], []) = Inl TypeError \<and> network_gen gc triangulate data = Inl TypeError)
   \<and> (\<forall>pre feature post. data = pre @ (feature, NoElements) # post
         \<and> (\<forall>fi \<in> set pre. \<exists>els. snd fi = Elements els)
        \<longrightarrow> ingest data ([], []) = Inl KeyError \<and> network_gen gc triangulate data = Inl KeyError)
   \<and> (\<forall>h. ingest (rename h data) ([], [])
             = map_sum id (\<lambda>(cs, fs). (cs, map h fs)) (ingest data ([], []))
          \<and> network_gen gc triangulate (rename h data)
             = map_sum id (\<lambda>g. g\<lparr>feature_type := map h (feature_type g)\<rparr>)
                 (network_gen gc triangulate data))
   \<and> (\<forall>cs fs ds simplices.
         ingest data ([], []) = Inr (cs, fs) \<and> dist_matrix gc cs = Inr ds
         \<and> Delaunay triangulate cs = Inr simplices
         \<and> (\<forall>e \<in> set (extract_edges simplices). fst e < length cs \<and> snd e < length cs)
        \<longrightarrow> (\<exists>g. network_gen gc triangulate data = Inr g))
   \<and> (\<forall>g. network_gen gc triangulate data = Inr g \<longrightarrow>
         ingest data ([], []) = Inr (map fst (records_of data), map snd (records_of data))
         \<and> vcount g = length (records_of data)
         \<and> latitude g = map (\<lambda>r. fst (fst r)) (records_of data)
         \<and> longitude g = map (\<lambda>r. snd (fst r)) (records_of data)
         \<and> feature_type g = map snd (records_of data))"
proof (intro conjI allI impI)
  assume "\<forall>fi \<in> set data. \<exists>els. snd fi = Elements els"
  from ingest_all[OF this, of "[]" "[]"]
  show "ingest data ([], []) = Inr (map fst (records_of data), map snd (records_of data))"
    by simp
next
  fix pre feature post
  assume h: "data = pre @ (feature, Null) # post \<and> (\<forall>fi \<in> set pre. \<exists>els. snd fi = Elements els)"
  then have "\<forall>fi \<in> set pre. \<exists>els. snd fi = Elements els" by simp
  from ingest_stops[OF this, of feature post "([], [])"] h
  show i: "ingest data ([], []) = Inl TypeError" by simp
  then show "network_gen gc triangulate data = Inl TypeError" by (simp add: network_gen_def)
next
  fix pre feature post
  assume h: "data = pre @ (feature, NoElements) # post \<and> (\<forall>fi \<in> set pre. \<exists>els. snd fi = Elements els)"
  then have "\<forall>fi \<in> set pre. \<exists>els. snd fi = Elements els" by simp
  from ingest_stops[OF this, of feature post "([], [])"] h
  show i: "ingest data ([], []) = Inl KeyError" by simp
  then show "network_gen gc triangulate data = Inl KeyError" by (simp add: network_gen_def)
next
  fix h
  from ingest_rename[of h data "[]" "[]"]
  show "ingest (rename h data) ([], [])
             = map_sum id (\<lambda>(cs, fs). (cs, map h fs)) (ingest data ([], []))"
    by simp
  show "network_gen gc triangulate (rename h data)
             = map_sum id (\<lambda>g. g\<lparr>feature_type := map h (feature_type g)\<rparr>)
                 (network_gen gc triangulate data)"
    by (rule network_gen_rename)
next
  fix cs fs ds simplices
  assume "ingest data ([], []) = Inr (cs, fs) \<and> dist_matrix gc cs = Inr ds
         \<and> Delaunay triangulate cs = Inr simplices
         \<and> (\<forall>e \<in> set (extract_edges simplices). fst e < length cs \<and> snd e < length cs)"
  then have "network_gen gc triangulate data
         = Inr \<lparr>vcount = length cs, edges = extract_edges simplices, feature_type = fs,
                latitude = map fst cs, longitude = map snd cs\<rparr>"
    using network_gen_returns[of data cs fs gc ds triangulate simplices] by simp
  then show "\<exists>g. network_gen gc triangulate data = Inr g" by (rule exI)
next
  fix g assume "network_gen gc triangulate data = Inr g"
  from network_gen_Inr[OF this] obtain cs fs simplices where
    i: "ingest data ([], []) = Inr (cs, fs)"
    and g: "g = \<lparr>vcount = length cs, edges = extract_edges simplices, feature_type = fs,
                  latitude = map fst cs, longitude = map snd cs\<rparr>"
    by blast
  from ingest_Inr[OF i] have cs: "cs = map fst (records_of data)"
    and fs: "fs = map snd (records_of data)" by simp_all
  show "ingest data ([], []) = Inr (map fst (records_of data), map snd (records_of data))"
    using i cs fs by simp
  show "vcount g = length (records_of data)" by (simp add: g cs)
  show "latitude g = map (\<lambda>r. fst (fst r)) (records_of data)" by (simp add: g cs comp_def)
  show "longitude g = map (\<lambda>r. snd (fst r)) (records_of data)" by (simp add: g cs comp_def)
  show "feature_type g = map snd (records_of data)" by (simp add: g fs)
qed

text \<open>
  The four points of the quadrilateral: as \<open>ramps\<close> they are ingested unchanged and become the
  graph of the quadrilateral; renamed to \<open>benches\<close>, a name outside the enumeration, they
  give the same graph with the new name on the vertices. A null response after them stops
  the script with a TypeError.
\<close>

theorem ingest_accepts_every_record_witness:
  "list_all (\<lambda>fi. \<exists>els. snd fi = Elements els) (quad_facilities ''ramps'')
   \<and> records_of (quad_facilities ''ramps'')
       = [((0, 0), ''ramps''), ((1, 0), ''ramps''), ((1, 1), ''ramps''), ((0, 2), ''ramps'')]
   \<and> ingest (quad_facilities ''ramps'') ([], [])
       = Inr ([(0, 0), (1, 0), (1, 1), (0, 2)], [''ramps'', ''ramps'', ''ramps'', ''ramps''])
   \<and> network_gen grid_distance quad_delaunay (quad_facilities ''ramps'') = Inr (quad_graph ''ramps'')
   \<and> rename (\<lambda>f. ''benches'') (quad_facilities ''ramps'') = quad_facilities ''benches''
   \<and> network_gen grid_distance quad_delaunay (quad_facilities ''benches'')
       = Inr ((quad_graph ''ramps'')\<lparr>feature_type := [''benches'', ''benches'', ''benches'', ''benches'']\<rparr>)
   \<and> latitude (quad_graph ''ramps'') = [0, 1, 1, 0]
   \<and> longitude (quad_graph ''ramps'') = [0, 0, 1, 2]
   \<and> ingest (quad_facilities ''ramps'' @ (''elevators'', Null) # []) ([], []) = Inl TypeError"
proof -
  let ?d = "quad_facilities ''ramps''"
  note t = ingest_accepts_every_record[of ?d grid_distance quad_delaunay]
  have h: "\<forall>fi \<in> set ?d. \<exists>els. snd fi = Elements els"
    by (simp add: quad_facilities_def)
  have c1: "list_all (\<lambda>fi. \<exists>els. snd fi = Elements els) ?d"
    using h by (simp only: list_all_iff)
  have c2: "records_of ?d
       = [((0, 0), ''ramps''), ((1, 0), ''ramps''), ((1, 1), ''ramps''), ((0, 2), ''ramps'')]"
    by (simp add: records_of_def quad_facilities_def)
  from t[THEN conjunct1] h
  have "ingest ?d ([], []) = Inr (map fst (records_of ?d), map snd (records_of ?d))"
    by (rule mp)
  then have c3: "ingest ?d ([], [])
       = Inr ([(0, 0), (1, 0), (1, 1), (0, 2)], [''ramps'', ''ramps'', ''ramps'', ''ramps''])"
    unfolding c2 by simp
  note c4 = network_gen_quad[of "''ramps''"]
  have c5: "rename (\<lambda>f. ''benches'') ?d = quad_facilities ''benches''"
    by (simp add: rename_def quad_facilities_def)
  from t[THEN conjunct2, THEN conjunct2, THEN conjunct2, THEN conjunct1, rule_format,
      of "\<lambda>f. ''benches''"]
  have "network_gen grid_distance quad_delaunay (rename (\<lambda>f. ''benches'') ?d)
             = map_sum id (\<lambda>g. g\<lparr>feature_type := map (\<lambda>f. ''benches'') (feature_type g)\<rparr>)
                 (network_gen grid_distance quad_delaunay ?d)"
    by (rule conjunct2)
  then have c6: "network_gen grid_distance quad_delaunay (quad_facilities ''benches'')
       = Inr ((quad_graph ''ramps'')\<lparr>feature_type := [''benches'', ''benches'', ''benches'', ''benches'']\<rparr>)"
    unfolding c5 c4 by (simp add: quad_graph_def)
  from t[THEN conjunct2, THEN conjunct2, THEN conjunct2, THEN conjunct2, THEN conjunct2,
      rule_format, OF c4]
  have "latitude (quad_graph ''ramps'') = map (\<lambda>r. fst (fst r)) (records_of ?d)"
    and "longitude (quad_graph ''ramps'') = map (\<lambda>r. snd (fst r)) (records_of ?d)"
    by simp_all
  then have c7: "latitude (quad_graph ''ramps'') = [0, 1, 1, 0]"
    and c8: "longitude (quad_graph ''ramps'') = [0, 0, 1, 2]"
    unfolding c2 by simp_all
  note t' = ingest_accepts_every_record[of "?d @ (''elevators'', Null) # []" grid_distance quad_delaunay]
  from t'[THEN conjunct2, THEN conjunct1, rule_format, of ?d "''elevators''" "[]"] h
  have c9: "ingest (?d @ (''elevators'', Null) # []) ([], []) = Inl TypeError"
    by simp
  from c1 c2 c3 c4 c5 c6 c7 c8 c9 show ?thesis by (intro conjI)
qed

text \<open>
  Four points of the feature \<open>benches\<close>, which is none of the twelve categories: no record is
  rejected, and the four points are the four vertices of the graph, with that feature name.
\<close>

theorem input_validation_counterexample:
  "''benches'' \<notin> set feature_types
   \<and> network_gen grid_distance quad_delaunay (quad_facilities ''benches'') = Inr (quad_graph ''benches'')
   \<and> vcount (quad_graph ''benches'') = 4
   \<and> feature_type (quad_graph ''benches'') = [''benches'', ''benches'', ''benches'', ''benches'']"
  using network_gen_quad[of "''benches''"] by (simp add: feature_types_def quad_graph_def)

text \<open>
  C5. The script has no fallback for an input the triangulation cannot handle and no
  validation of its own. With fewer than three points it never builds a graph: once the
  points are ingested and the distance matrix is filled, the unguarded call of the
  triangulation raises ValueError for no point and QhullError for one or two points, and
  that exception is the outcome. With three points or more, an exception of the
  triangulation is the outcome as well. An exception of the library distance comes before
  all of these. The script builds a graph only from three points or more and the simplices
  the triangulation returns for them: the graph has one vertex per point, and its edges are
  the sides of those simplices as ordered pairs, each pair once. It does return that graph
  when the distance and the triangulation return and the simplices number the points.
\<close>

theorem degenerate_triangulation_raises:
  assumes "ingest data ([], []) = Inr (cs, fs)"
  shows "(length cs < 3 \<longrightarrow> (\<exists>e. network_gen gc triangulate data = Inl e))
         \<and> (cs = [] \<longrightarrow> network_gen gc triangulate data = Inl ValueError)
         \<and> (length cs = 1 \<longrightarrow> network_gen gc triangulate data = Inl QhullError)
         \<and> (\<forall>ds. length cs = 2 \<and> dist_matrix gc cs = Inr ds \<longrightarrow>
               network_gen gc triangulate data = Inl QhullError)
         \<and> (\<forall>ds e. 3 \<le> length cs \<and> dist_matrix gc cs = Inr ds \<and> triangulate cs = Inl e \<longrightarrow>
               network_gen gc triangulate data = Inl e)
         \<and> (\<forall>e. dist_matrix gc cs = Inl e \<longrightarrow> network_gen gc triangulate data = Inl e)
         \<and> (\<forall>g. network_gen gc triangulate data = Inr g \<longrightarrow>
               3 \<le> length cs \<and> vcount g = length cs
               \<and> (\<exists>simplices. triangulate cs = Inr simplices
                     \<and> set (edges g)
                         = (\<Union>s \<in> set simplices. case s of (s0, s1, s2) \<Rightarrow> {(s0, s1), (s1, s2), (s2, s0)})
                     \<and> set (edges g) = set (extract_edges simplices)
                     \<and> distinct (edges g)))
         \<and> (\<forall>ds simplices. 3 \<le> length cs \<and> dist_matrix gc cs = Inr ds
               \<and> triangulate cs = Inr simplices
               \<and> (\<forall>s \<in> set simplices. case s of (s0, s1, s2) \<Rightarrow>
                     s0 < length cs \<and> s1 < length cs \<and> s2 < length cs)
              \<longrightarrow> (\<exists>g. network_gen gc triangulate data = Inr g))"
proof -
  note i = assms
  have dist_err: "network_gen gc triangulate data = Inl e" if "dist_matrix gc cs = Inl e" for e
    using network_gen_dist_error[OF i that] .
  have del_err: "network_gen gc triangulate data = Inl e"
    if "dist_matrix gc cs = Inr ds" "Delaunay triangulate cs = Inl e" for ds e
    unfolding network_gen_unfold[OF i that(1)] that(2) by simp
  have c2: "cs = [] \<longrightarrow> network_gen gc triangulate data = Inl ValueError"
  proof
    assume e: "cs = []"
    then have "dist_matrix gc cs = Inr []" by (simp add: dist_matrix_few)
    moreover have "Delaunay triangulate cs = Inl ValueError" using e by (simp add: Delaunay_def)
    ultimately show "network_gen gc triangulate data = Inl ValueError" by (rule del_err)
  qed
  have c3: "length cs = 1 \<longrightarrow> network_gen gc triangulate data = Inl QhullError"
  proof
    assume l: "length cs = 1"
    then have "dist_matrix gc cs = Inr []" by (simp add: dist_matrix_few)
    moreover have "Delaunay triangulate cs = Inl QhullError"
      using l by (auto simp: Delaunay_def)
    ultimately show "network_gen gc triangulate data = Inl QhullError" by (rule del_err)
  qed
  have c4: "\<forall>ds. length cs = 2 \<and> dist_matrix gc cs = Inr ds \<longrightarrow>
               network_gen gc triangulate data = Inl QhullError"
  proof (intro allI impI)
    fix ds assume h: "length cs = 2 \<and> dist_matrix gc cs = Inr ds"
    then have "Delaunay triangulate cs = Inl QhullError" by (auto simp: Delaunay_def)
    with h show "network_gen gc triangulate data = Inl QhullError" using del_err by blast
  qed
  have c5: "\<forall>ds e. 3 \<le> length cs \<and> dist_matrix gc cs = Inr ds \<and> triangulate cs = Inl e \<longrightarrow>
               network_gen gc triangulate data = Inl e"
  proof (intro allI impI)
    fix ds e assume h: "3 \<le> length cs \<and> dist_matrix gc cs = Inr ds \<and> triangulate cs = Inl e"
    then have "Delaunay triangulate cs = Inl e" by (auto simp: Delaunay_def)
    with h show "network_gen gc triangulate data = Inl e" using del_err by blast
  qed
  have c6: "\<forall>e. dist_matrix gc cs = Inl e \<longrightarrow> network_gen gc triangulate data = Inl e"
    using dist_err by blast
  have c1: "length cs < 3 \<longrightarrow> (\<exists>e. network_gen gc triangulate data = Inl e)"
  proof
    assume l: "length cs < 3"
    show "\<exists>e. network_gen gc triangulate data = Inl e"
    proof (cases "dist_matrix gc cs")
      case (Inl e)
      then show ?thesis using dist_err by blast
    next
      case (Inr ds)
      from l have "length cs = 0 \<or> length cs = 1 \<or> length cs = 2" by arith
      then have "cs = [] \<or> length cs = 1 \<or> length cs = 2" by simp
      with c2 c3 c4 Inr show ?thesis by blast
    qed
  qed
  have c7: "\<forall>g. network_gen gc triangulate data = Inr g \<longrightarrow>
               3 \<le> length cs \<and> vcount g = length cs
               \<and> (\<exists>simplices. triangulate cs = Inr simplices
                     \<and> set (edges g)
                         = (\<Union>s \<in> set simplices. case s of (s0, s1, s2) \<Rightarrow> {(s0, s1), (s1, s2), (s2, s0)})
                     \<and> set (edges g) = set (extract_edges simplices)
                     \<and> distinct (edges g))"
  proof (intro allI impI)
    fix g assume g: "network_gen gc triangulate data = Inr g"
    from network_gen_Inr[OF g] i obtain simplices where
      s: "Delaunay triangulate cs = Inr simplices"
      and gg: "g = \<lparr>vcount = length cs, edges = extract_edges simplices, feature_type = fs,
                    latitude = map fst cs, longitude = map snd cs\<rparr>"
      by auto
    from s have l: "3 \<le> length cs" and ts: "triangulate cs = Inr simplices"
      by (auto simp: Delaunay_def split: if_splits)
    have e: "set (edges g) = set (extract_edges simplices)" "distinct (edges g)"
      by (simp_all add: gg distinct_extract_edges)
    have "\<exists>simplices. triangulate cs = Inr simplices
                     \<and> set (edges g)
                         = (\<Union>s \<in> set simplices. case s of (s0, s1, s2) \<Rightarrow> {(s0, s1), (s1, s2), (s2, s0)})
                     \<and> set (edges g) = set (extract_edges simplices)
                     \<and> distinct (edges g)"
      by (rule exI[where x = simplices]) (intro conjI ts e e(1)[unfolded set_extract_edges])
    with l show "3 \<le> length cs \<and> vcount g = length cs
               \<and> (\<exists>simplices. triangulate cs = Inr simplices
                     \<and> set (edges g)
                         = (\<Union>s \<in> set simplices. case s of (s0, s1, s2) \<Rightarrow> {(s0, s1), (s1, s2), (s2, s0)})
                     \<and> set (edges g) = set (extract_edges simplices)
                     \<and> distinct (edges g))"
      by (simp add: gg)
  qed
  have c8: "\<forall>ds simplices. 3 \<le> length cs \<and> dist_matrix gc cs = Inr ds
               \<and> triangulate cs = Inr simplices
               \<and> (\<forall>s \<in> set simplices. case s of (s0, s1, s2) \<Rightarrow>
                     s0 < length cs \<and> s1 < length cs \<and> s2 < length cs)
              \<longrightarrow> (\<exists>g. network_gen gc triangulate data = Inr g)"
  proof (intro allI impI)
    fix ds simplices
    assume h: "3 \<le> length cs \<and> dist_matrix gc cs = Inr ds
               \<and> triangulate cs = Inr simplices
               \<and> (\<forall>s \<in> set simplices. case s of (s0, s1, s2) \<Rightarrow>
                     s0 < length cs \<and> s1 < length cs \<and> s2 < length cs)"
    then have d: "dist_matrix gc cs = Inr ds" by simp
    from h have s: "Delaunay triangulate cs = Inr simplices" by (auto simp: Delaunay_def)
    from h have r: "\<forall>e \<in> set (extract_edges simplices). fst e < length cs \<and> snd e < length cs"
      unfolding set_extract_edges by fastforce
    from network_gen_returns[OF i d s r] show "\<exists>g. network_gen gc triangulate data = Inr g"
      by (rule exI)
  qed
  from c1 c2 c3 c4 c5 c6 c7 c8 show ?thesis by (intro conjI)
qed

text \<open>
  Two points, for which the distance returns: the script ends in QhullError. The four
  points of the quadrilateral: the script returns the graph of four vertices whose edges
  are the sides of the two triangles.
\<close>

theorem degenerate_triangulation_raises_witness:
  "ingest two_facilities ([], []) = Inr ([(0, 0), (0, 1)], [''ramps'', ''ramps''])
   \<and> dist_matrix grid_distance [(0, 0), (0, 1)] = Inr [111]
   \<and> network_gen grid_distance quad_delaunay two_facilities = Inl QhullError
   \<and> ingest (quad_facilities ''ramps'') ([], [])
       = Inr ([(0, 0), (1, 0), (1, 1), (0, 2)], [''ramps'', ''ramps'', ''ramps'', ''ramps''])
   \<and> network_gen grid_distance quad_delaunay (quad_facilities ''ramps'') = Inr (quad_graph ''ramps'')
   \<and> vcount (quad_graph ''ramps'') = 4
   \<and> set (edges (quad_graph ''ramps'')) = set (extract_edges [(0, 1, 2), (0, 2, 3)])
   \<and> distinct (edges (quad_graph ''ramps''))"
proof -
  note i2 = ingest_two
  have d2: "dist_matrix grid_distance [(0, 0), (0, 1)] = Inr [111]"
    by (simp add: dist_matrix_def grid_distance_def)
  have l2: "length [(0 :: real, 0 :: real), (0, 1)] = 2" by simp
  note t2 = degenerate_triangulation_raises[OF i2, of grid_distance quad_delaunay]
  from t2[THEN conjunct2, THEN conjunct2, THEN conjunct2, THEN conjunct1, rule_format,
      OF conjI[OF l2 d2]]
  have a: "network_gen grid_distance quad_delaunay two_facilities = Inl QhullError" .
  note i4 = ingest_quad[of "''ramps''"]
  note q = network_gen_quad[of "''ramps''"]
  note t4 = degenerate_triangulation_raises[OF i4, of grid_distance quad_delaunay]
  note r = t4[THEN conjunct2, THEN conjunct2, THEN conjunct2, THEN conjunct2, THEN conjunct2,
      THEN conjunct2, THEN conjunct1, rule_format, OF q]
  from r have v: "vcount (quad_graph ''ramps'') = 4" by simp
  from r have "\<exists>simplices. quad_delaunay [(0, 0), (1, 0), (1, 1), (0, 2)] = Inr simplices
        \<and> set (edges (quad_graph ''ramps'')) = set (extract_edges simplices)
        \<and> distinct (edges (quad_graph ''ramps''))"
    by blast
  then have e: "set (edges (quad_graph ''ramps'')) = set (extract_edges [(0, 1, 2), (0, 2, 3)])"
    and di: "distinct (edges (quad_graph ''ramps''))"
    by (auto simp: quad_delaunay_def)
  from i2 d2 a i4 q v e di show ?thesis by (intro conjI)
qed

text \<open>
  Two points give QhullError and not the graph of two vertices without edges; one point
  gives QhullError and not the graph of one vertex; no point at all gives ValueError and not
  the empty graph. The exception is the one the library raises, passed on as it is; the
  triangulation of three points or more is not reached at these inputs.
\<close>

theorem degenerate_fallback_counterexample:
  "network_gen grid_distance quad_delaunay two_facilities = Inl QhullError
   \<and> network_gen grid_distance quad_delaunay one_facility = Inl QhullError
   \<and> network_gen grid_distance quad_delaunay [] = Inl ValueError
   \<and> network_gen grid_distance quad_delaunay two_facilities
       \<noteq> Inr \<lparr>vcount = 2, edges = [], feature_type = [''ramps'', ''ramps''],
               latitude = [0, 0], longitude = [0, 1]\<rparr>
   \<and> network_gen grid_distance quad_delaunay one_facility
       \<noteq> Inr \<lparr>vcount = 1, edges = [], feature_type = [''ramps''], latitude = [0], longitude = [0]\<rparr>
   \<and> network_gen grid_distance quad_delaunay [] \<noteq> Inr empty_graph"
  by (simp add: network_gen_def dist_matrix_def grid_distance_def Delaunay_def two_facilities_def
      one_facility_def)

text \<open>
  C6. The set \<^verbatim>\<open>edges\<close> holds ordered tuples, so it collapses a pair added twice in the same
  direction but keeps (a, b) next to (b, a). Two triangles of the same orientation run
  through their common side in opposite directions: for the quadrilateral the script adds
  both (2, 0) and (0, 2), and the graph has two edges between the vertices 0 and 2.
\<close>

theorem reversed_edge_kept_twice:
  "extract_edges [(0, 1, 2), (0, 2, 3)] = [(0, 1), (1, 2), (2, 0), (0, 2), (2, 3), (3, 0)]
   \<and> network_gen grid_distance quad_delaunay (quad_facilities ''ramps'') = Inr (quad_graph ''ramps'')
   \<and> (2, 0) \<in> set (edges (quad_graph ''ramps'')) \<and> (0, 2) \<in> set (edges (quad_graph ''ramps''))
   \<and> multiplicity (quad_graph ''ramps'') 0 2 = 2
   \<and> \<not> simple_graph (quad_graph ''ramps'')"
  using extract_quad network_gen_quad[of "''ramps''"] quad_not_simple[of "''ramps''"]
  by (simp add: quad_graph_def)

text \<open>
  The test inside \<^verbatim>\<open>add_edges\<close> is passed at this input, every endpoint being one of the four
  vertices, so the script does return the graph with the doubled edge.
\<close>

theorem reversed_edge_kept_twice_witness:
  "list_all (\<lambda>e. fst e < 4 \<and> snd e < 4) (extract_edges [(0, 1, 2), (0, 2, 3)])
   \<and> (\<exists>g. network_gen grid_distance quad_delaunay (quad_facilities ''ramps'') = Inr g
         \<and> multiplicity g 0 2 = 2 \<and> \<not> simple_graph g)"
proof -
  note t = reversed_edge_kept_twice
  have "list_all (\<lambda>e. fst e < 4 \<and> snd e < 4) (extract_edges [(0, 1, 2), (0, 2, 3)])"
    using t by simp
  moreover have "\<exists>g. network_gen grid_distance quad_delaunay (quad_facilities ''ramps'') = Inr g
         \<and> multiplicity g 0 2 = 2 \<and> \<not> simple_graph g"
    by (rule exI[where x = "quad_graph ''ramps''"]) (use t in blast)
  ultimately show ?thesis by (intro conjI)
qed

end
